theory Spec2Isabelle
  imports Complex_Main
begin

section \<open>Python values and strings\<close>

text \<open>
  The collection pipeline passes records around as Python dictionaries whose values are
  strings, integers or \<^verbatim>\<open>None\<close>. A dictionary is an association list (first binding of a
  key wins), and \<^verbatim>\<open>d.get(k)\<close> yields \<^verbatim>\<open>None\<close> for a key that is not bound.
  A Python \<^verbatim>\<open>str\<close> is a list of code points; \<open>char\<close> covers the code points below 256,
  which is the range the messages of this program use (Latin-1 letters of Portuguese).
\<close>

datatype pyval = PyNone | PyInt int | PyStr string

type_synonym pydict = "(string \<times> pyval) list"

definition py_get :: "pydict \<Rightarrow> string \<Rightarrow> pyval" where
  "py_get d k = (case map_of d k of None \<Rightarrow> PyNone | Some v \<Rightarrow> v)"

definition py_get_default :: "pydict \<Rightarrow> string \<Rightarrow> pyval \<Rightarrow> pyval" where
  "py_get_default d k dflt = (case map_of d k of None \<Rightarrow> dflt | Some v \<Rightarrow> v)"

text \<open>\<^verbatim>\<open>str.isspace\<close> on one code point below 256: TAB, LF, VT, FF, CR, the four
  separators FS, GS, RS, US, the blank, NEL and the no-break space.\<close>

definition isspace :: "char \<Rightarrow> bool" where
  "isspace c = (of_char c \<in> {9, 10, 11, 12, 13, 28, 29, 30, 31, 32, 133, 160 :: nat})"

text \<open>\<^verbatim>\<open>text.split()\<close> without arguments: the maximal runs of non-whitespace, in order.
  The first argument is the word read so far.\<close>

fun split_from :: "string \<Rightarrow> string \<Rightarrow> string list" where
  "split_from w [] = (if w = [] then [] else [w])"
| "split_from w (c # cs) =
     (if isspace c then (if w = [] then split_from [] cs else w # split_from [] cs)
      else split_from (w @ [c]) cs)"

definition py_split :: "string \<Rightarrow> string list" where
  "py_split s = split_from [] s"

fun py_join :: "string \<Rightarrow> string list \<Rightarrow> string" where
  "py_join sep [] = []"
| "py_join sep [w] = w"
| "py_join sep (w # v # ws) = w @ sep @ py_join sep (v # ws)"

definition py_strip :: "string \<Rightarrow> string" where
  "py_strip s = rev (dropWhile isspace (rev (dropWhile isspace s)))"

text \<open>\<^verbatim>\<open>BaseScraper.clean_text\<close>: the argument is a string or \<^verbatim>\<open>None\<close>.\<close>

definition clean_text :: "string option \<Rightarrow> string" where
  "clean_text text =
     (case text of
        None \<Rightarrow> []
      | Some t \<Rightarrow> if t = [] then [] else py_strip (py_join '' '' (py_split t)))"

text \<open>What the normal form of a text looks like: no whitespace at either end, and no two
  whitespace characters in a row.\<close>

definition no_edge_space :: "string \<Rightarrow> bool" where
  "no_edge_space s = (s = [] \<or> (\<not> isspace (hd s) \<and> \<not> isspace (last s)))"

fun no_double_space :: "string \<Rightarrow> bool" where
  "no_double_space (a # b # cs) = (\<not> (isspace a \<and> isspace b) \<and> no_double_space (b # cs))"
| "no_double_space _ = True"

text \<open>A word as \<^verbatim>\<open>split\<close> produces it: not empty, and free of whitespace.\<close>

definition wordy :: "string \<Rightarrow> bool" where
  "wordy w = (w \<noteq> [] \<and> list_all (\<lambda>c. \<not> isspace c) w)"

text \<open>Python's truth value of a value, and \<^verbatim>\<open>str(n)\<close> for a count.\<close>

fun truthy :: "pyval \<Rightarrow> bool" where
  "truthy PyNone = False"
| "truthy (PyInt n) = (n \<noteq> 0)"
| "truthy (PyStr s) = (s \<noteq> [])"

definition digit_char :: "nat \<Rightarrow> char" where
  "digit_char n = char_of (48 + n)"

fun str_nat :: "nat \<Rightarrow> string" where
  "str_nat n = (if n < 10 then [digit_char n] else str_nat (n div 10) @ [digit_char (n mod 10)])"

declare str_nat.simps [simp del]

section \<open>The record store\<close>

text \<open>
  The two tables of \<^verbatim>\<open>models/jurisprudencia.py\<close>. A column holds a Python value
  (\<open>PyNone\<close> is SQL NULL); the primary key \<^verbatim>\<open>id\<close> is the position of the row in its table;
  \<^verbatim>\<open>data_coleta\<close> is filled by the column default from the clock.
\<close>

record Jurisprudencia =
  tribunal :: pyval
  numero_processo :: pyval
  relator :: pyval
  data_julgamento :: pyval
  data_publicacao :: pyval
  ementa :: pyval
  acordao :: pyval
  tags :: pyval
  url_origem :: pyval
  data_coleta :: nat

record Enunciado =
  orgao :: pyval
  tipo :: pyval
  numero :: pyval
  texto :: pyval
  observacoes :: pyval
  data_aprovacao :: pyval
  enunciado_data_coleta :: nat
  enunciado_url_origem :: pyval

text \<open>
  The database with its session: the committed rows of both tables and the objects added
  to the session and not yet committed. With \<open>autoflush\<close> (the default of the session) a
  query first flushes the pending objects, so it sees them too.
\<close>

record database =
  jurisprudencia_table :: "Jurisprudencia list"
  enunciados_table :: "Enunciado list"
  new_jurisprudencia :: "Jurisprudencia list"
  new_enunciados :: "Enunciado list"
  autoflush :: bool

definition visible_jurisprudencia :: "database \<Rightarrow> Jurisprudencia list" where
  "visible_jurisprudencia db =
     jurisprudencia_table db @ (if autoflush db then new_jurisprudencia db else [])"

definition visible_enunciados :: "database \<Rightarrow> Enunciado list" where
  "visible_enunciados db =
     enunciados_table db @ (if autoflush db then new_enunciados db else [])"

text \<open>\<^verbatim>\<open>Jurisprudencia.query.filter_by(tribunal=t, numero_processo=n).first()\<close> and its
  counterpart on \<^verbatim>\<open>Enunciado\<close>: the first row with these key columns, if any.\<close>

definition query_jurisprudencia :: "database \<Rightarrow> pyval \<Rightarrow> pyval \<Rightarrow> Jurisprudencia option" where
  "query_jurisprudencia db t n =
     find (\<lambda>r. tribunal r = t \<and> numero_processo r = n) (visible_jurisprudencia db)"

definition query_enunciado :: "database \<Rightarrow> pyval \<Rightarrow> pyval \<Rightarrow> pyval \<Rightarrow> Enunciado option" where
  "query_enunciado db og tp n =
     find (\<lambda>r. orgao r = og \<and> tipo r = tp \<and> numero r = n) (visible_enunciados db)"

definition session_commit :: "database \<Rightarrow> database" where
  "session_commit db =
     db\<lparr>jurisprudencia_table := jurisprudencia_table db @ new_jurisprudencia db,
        enunciados_table := enunciados_table db @ new_enunciados db,
        new_jurisprudencia := [], new_enunciados := []\<rparr>"

definition session_rollback :: "database \<Rightarrow> database" where
  "session_rollback db = db\<lparr>new_jurisprudencia := [], new_enunciados := []\<rparr>"

text \<open>
  What the storage does during one \<^verbatim>\<open>_save_*\<close> call is not decided by the program: whether
  the \<^verbatim>\<open>try\<close> block of the record at a position raises (the lookup or the construction
  fails), whether the commit raises, and what the clock shows.
\<close>

record storage =
  stage_raises :: "nat \<Rightarrow> bool"
  commit_raises :: bool
  utcnow :: "nat \<Rightarrow> nat"

section \<open>Deduplication and persistence (JurisprudenciaService)\<close>

text \<open>\<^verbatim>\<open>_parse_date\<close>: both branches return \<^verbatim>\<open>None\<close>.\<close>

definition parse_date :: "pyval \<Rightarrow> pyval" where
  "parse_date date_string = (if \<not> truthy date_string then PyNone else PyNone)"

definition new_Jurisprudencia :: "pydict \<Rightarrow> nat \<Rightarrow> Jurisprudencia" where
  "new_Jurisprudencia decision now =
     \<lparr>tribunal = py_get decision ''tribunal'',
      numero_processo = py_get decision ''numero_processo'',
      relator = py_get decision ''relator'',
      data_julgamento = parse_date (py_get decision ''data_julgamento''),
      data_publicacao = parse_date (py_get decision ''data_publicacao''),
      ementa = py_get decision ''ementa'',
      acordao = py_get decision ''acordao'',
      tags = py_get decision ''tags'',
      url_origem = py_get decision ''url_origem'',
      data_coleta = now\<rparr>"

definition new_Enunciado :: "pydict \<Rightarrow> nat \<Rightarrow> Enunciado" where
  "new_Enunciado enunciado_data now =
     \<lparr>orgao = py_get enunciado_data ''orgao'',
      tipo = py_get enunciado_data ''tipo'',
      numero = py_get enunciado_data ''numero'',
      texto = py_get enunciado_data ''texto'',
      observacoes = py_get enunciado_data ''observacoes'',
      data_aprovacao = PyNone,
      enunciado_data_coleta = now,
      enunciado_url_origem = py_get enunciado_data ''url_origem''\<rparr>"

text \<open>The body of the loop of \<^verbatim>\<open>_save_jurisprudencia\<close> for the record at position \<open>i\<close>:
  an exception and an existing row both lead to \<^verbatim>\<open>continue\<close>.\<close>

fun stage_decision :: "storage \<Rightarrow> nat \<Rightarrow> pydict \<Rightarrow> database \<times> nat \<Rightarrow> database \<times> nat" where
  "stage_decision st i decision (db, saved_count) =
     (if stage_raises st i then (db, saved_count)
      else case query_jurisprudencia db (py_get decision ''tribunal'')
                  (py_get decision ''numero_processo'') of
             Some existing \<Rightarrow> (db, saved_count)
           | None \<Rightarrow>
               (db\<lparr>new_jurisprudencia :=
                     new_jurisprudencia db @ [new_Jurisprudencia decision (utcnow st i)]\<rparr>,
                saved_count + 1))"

fun stage_decisions ::
  "storage \<Rightarrow> nat \<Rightarrow> pydict list \<Rightarrow> database \<times> nat \<Rightarrow> database \<times> nat" where
  "stage_decisions st i [] acc = acc"
| "stage_decisions st i (decision # rest) acc =
     stage_decisions st (Suc i) rest (stage_decision st i decision acc)"

definition save_jurisprudencia :: "storage \<Rightarrow> database \<Rightarrow> pydict list \<Rightarrow> database \<times> nat" where
  "save_jurisprudencia st db decisions =
     (case stage_decisions st 0 decisions (db, 0) of
        (db', saved_count) \<Rightarrow>
          if commit_raises st then (session_rollback db', 0)
          else (session_commit db', saved_count))"

fun stage_enunciado :: "storage \<Rightarrow> nat \<Rightarrow> pydict \<Rightarrow> database \<times> nat \<Rightarrow> database \<times> nat" where
  "stage_enunciado st i enunciado_data (db, saved_count) =
     (if stage_raises st i then (db, saved_count)
      else case query_enunciado db (py_get enunciado_data ''orgao'')
                  (py_get enunciado_data ''tipo'') (py_get enunciado_data ''numero'') of
             Some existing \<Rightarrow> (db, saved_count)
           | None \<Rightarrow>
               (db\<lparr>new_enunciados :=
                     new_enunciados db @ [new_Enunciado enunciado_data (utcnow st i)]\<rparr>,
                saved_count + 1))"

fun stage_enunciados ::
  "storage \<Rightarrow> nat \<Rightarrow> pydict list \<Rightarrow> database \<times> nat \<Rightarrow> database \<times> nat" where
  "stage_enunciados st i [] acc = acc"
| "stage_enunciados st i (enunciado_data # rest) acc =
     stage_enunciados st (Suc i) rest (stage_enunciado st i enunciado_data acc)"

definition save_enunciados :: "storage \<Rightarrow> database \<Rightarrow> pydict list \<Rightarrow> database \<times> nat" where
  "save_enunciados st db enunciados =
     (case stage_enunciados st 0 enunciados (db, 0) of
        (db', saved_count) \<Rightarrow>
          if commit_raises st then (session_rollback db', 0)
          else (session_commit db', saved_count))"

section \<open>The collection orchestrator\<close>

text \<open>
  A scraper as \<^verbatim>\<open>collect_all_recent_jurisprudence\<close> uses it: the two methods it calls,
  \<^verbatim>\<open>get_recent_jurisprudence\<close> and \<^verbatim>\<open>get_all_enunciados\<close>, each returning a list of
  records or raising (\<open>Inl\<close> carries \<^verbatim>\<open>str(e)\<close>). The registry
  \<^verbatim>\<open>self.scrapers\<close> is a dictionary that is only iterated, in insertion order: a list
  of names with their scrapers.
\<close>

record scraper =
  recent_jurisprudence :: "int \<Rightarrow> string + pydict list"
  all_enunciados :: "string + pydict list"

record results =
  success :: "string list"
  errors :: "string list"
  total_collected :: nat

definition decisoes_msg :: "string \<Rightarrow> nat \<Rightarrow> string" where
  "decisoes_msg tribunal_name saved_count =
     tribunal_name @ '': '' @ str_nat saved_count @ '' decis'' @ [CHR 0xF5] @ ''es coletadas''"

definition enunciados_msg :: "string \<Rightarrow> nat \<Rightarrow> string" where
  "enunciados_msg tribunal_name saved_count =
     tribunal_name @ '': '' @ str_nat saved_count @ '' enunciados coletados''"

definition error_msg :: "string \<Rightarrow> string \<Rightarrow> string" where
  "error_msg tribunal_name e = ''Erro na coleta do '' @ tribunal_name @ '': '' @ e"

text \<open>One turn of the loop over the registry, with its \<^verbatim>\<open>try\<close>/\<^verbatim>\<open>except\<close>.\<close>

fun collect_from ::
  "(string \<Rightarrow> storage) \<Rightarrow> int \<Rightarrow> string \<times> scraper \<Rightarrow> database \<times> results
     \<Rightarrow> database \<times> results" where
  "collect_from env days_back (tribunal_name, scraper) (db, res) =
     (if tribunal_name = ''ENUNCIADOS'' then
        (case all_enunciados scraper of
           Inl e \<Rightarrow> (db, res\<lparr>errors := errors res @ [error_msg tribunal_name e]\<rparr>)
         | Inr enunciados \<Rightarrow>
             (case save_enunciados (env tribunal_name) db enunciados of
                (db', saved_count) \<Rightarrow>
                  (db', res\<lparr>success := success res @ [enunciados_msg tribunal_name saved_count],
                            total_collected := total_collected res + saved_count\<rparr>)))
      else
        (case recent_jurisprudence scraper days_back of
           Inl e \<Rightarrow> (db, res\<lparr>errors := errors res @ [error_msg tribunal_name e]\<rparr>)
         | Inr decisions \<Rightarrow>
             (case save_jurisprudencia (env tribunal_name) db decisions of
                (db', saved_count) \<Rightarrow>
                  (db', res\<lparr>success := success res @ [decisoes_msg tribunal_name saved_count],
                            total_collected := total_collected res + saved_count\<rparr>))))"

fun collect_loop ::
  "(string \<Rightarrow> storage) \<Rightarrow> int \<Rightarrow> (string \<times> scraper) list \<Rightarrow> database \<times> results
     \<Rightarrow> database \<times> results" where
  "collect_loop env days_back [] acc = acc"
| "collect_loop env days_back (entry # rest) acc =
     collect_loop env days_back rest (collect_from env days_back entry acc)"

definition collect_all_recent_jurisprudence ::
  "(string \<Rightarrow> storage) \<Rightarrow> (string \<times> scraper) list \<Rightarrow> int \<Rightarrow> database
     \<Rightarrow> database \<times> results" where
  "collect_all_recent_jurisprudence env scrapers days_back db =
     collect_loop env days_back scrapers
       (db, \<lparr>success = [], errors = [], total_collected = 0\<rparr>)"


section \<open>Notions used in the statements and proofs\<close>

text \<open>Removing one position from what the storage does at each position of a batch.\<close>

definition skip_at :: "nat \<Rightarrow> (nat \<Rightarrow> 'a) \<Rightarrow> nat \<Rightarrow> 'a" where
  "skip_at k f i = (if i < k then f i else f (Suc i))"

definition without_position :: "nat \<Rightarrow> storage \<Rightarrow> storage" where
  "without_position k st =
     st\<lparr>stage_raises := skip_at k (stage_raises st), utcnow := skip_at k (utcnow st)\<rparr>"

text \<open>A row carries the uniqueness key of a scraped record.\<close>

definition same_decision :: "pydict \<Rightarrow> Jurisprudencia \<Rightarrow> bool" where
  "same_decision d r =
     (tribunal r = py_get d ''tribunal'' \<and> numero_processo r = py_get d ''numero_processo'')"

definition same_enunciado :: "pydict \<Rightarrow> Enunciado \<Rightarrow> bool" where
  "same_enunciado d r =
     (orgao r = py_get d ''orgao'' \<and> tipo r = py_get d ''tipo'' \<and> numero r = py_get d ''numero'')"

text \<open>A storage that never fails, with some clock.\<close>

definition working_storage :: "(string \<Rightarrow> nat \<Rightarrow> nat) \<Rightarrow> string \<Rightarrow> storage" where
  "working_storage clock tribunal_name =
     \<lparr>stage_raises = (\<lambda>i. False), commit_raises = False, utcnow = clock tribunal_name\<rparr>"

text \<open>No object is pending in the session; and one state of the tables extends another.\<close>

definition clean_session :: "database \<Rightarrow> bool" where
  "clean_session db = (new_jurisprudencia db = [] \<and> new_enunciados db = [])"

definition grows :: "database \<Rightarrow> database \<Rightarrow> bool" where
  "grows db db' =
     ((\<exists>ext. jurisprudencia_table db' = jurisprudencia_table db @ ext)
      \<and> (\<exists>ext. enunciados_table db' = enunciados_table db @ ext))"

text \<open>
  What a scraper of the registry hands over (nothing when it raises). A database is settled
  for a registry entry and a storage when, unless the commit of that entry's batch fails,
  it holds a row for every record handed over whose position does not raise. One storage
  shows no recovery after another when it fails wherever the other failed: its commit
  fails, or the other's commit worked and it raises at every position where the other
  raised.
\<close>

definition fetched :: "int \<Rightarrow> string \<times> scraper \<Rightarrow> pydict list option" where
  "fetched days_back entry =
     (case (if fst entry = ''ENUNCIADOS'' then all_enunciados (snd entry)
            else recent_jurisprudence (snd entry) days_back) of
        Inl e \<Rightarrow> None | Inr records \<Rightarrow> Some records)"

definition settled :: "(string \<Rightarrow> storage) \<Rightarrow> int \<Rightarrow> database \<Rightarrow> string \<times> scraper \<Rightarrow> bool" where
  "settled env days_back db entry =
     (case fetched days_back entry of
        None \<Rightarrow> True
      | Some records \<Rightarrow>
          commit_raises (env (fst entry))
          \<or> (if fst entry = ''ENUNCIADOS''
              then \<forall>j < length records. stage_raises (env (fst entry)) j
                     \<or> (\<exists>r \<in> set (enunciados_table db). same_enunciado (records ! j) r)
              else \<forall>j < length records. stage_raises (env (fst entry)) j
                     \<or> (\<exists>r \<in> set (jurisprudencia_table db). same_decision (records ! j) r)))"

definition no_recovery :: "storage \<Rightarrow> storage \<Rightarrow> bool" where
  "no_recovery st st' =
     (commit_raises st'
      \<or> (\<not> commit_raises st \<and> (\<forall>j. stage_raises st j \<longrightarrow> stage_raises st' j)))"



text \<open>
  The uniqueness key of a scraped record, and the rows a batch contributes when every
  lookup misses: one row for each position that does not raise, in order.
\<close>

definition decision_key :: "pydict \<Rightarrow> pyval \<times> pyval" where
  "decision_key d = (py_get d ''tribunal'', py_get d ''numero_processo'')"

definition enunciado_key :: "pydict \<Rightarrow> pyval \<times> pyval \<times> pyval" where
  "enunciado_key d = (py_get d ''orgao'', py_get d ''tipo'', py_get d ''numero'')"

fun staged_decisions :: "storage \<Rightarrow> nat \<Rightarrow> pydict list \<Rightarrow> Jurisprudencia list" where
  "staged_decisions st i [] = []"
| "staged_decisions st i (d # ds) =
     (if stage_raises st i then [] else [new_Jurisprudencia d (utcnow st i)])
     @ staged_decisions st (Suc i) ds"

fun staged_enunciados :: "storage \<Rightarrow> nat \<Rightarrow> pydict list \<Rightarrow> Enunciado list" where
  "staged_enunciados st i [] = []"
| "staged_enunciados st i (d # ds) =
     (if stage_raises st i then [] else [new_Enunciado d (utcnow st i)])
     @ staged_enunciados st (Suc i) ds"

section \<open>Scrapers\<close>

text \<open>
  What the network answers to \<^verbatim>\<open>session.get\<close> followed by \<^verbatim>\<open>raise_for_status\<close>: a response
  (its text), a \<^verbatim>\<open>requests.RequestException\<close> (timeout, refused connection, error status),
  or some other exception. The random delay before the request has no part in the result.
\<close>

datatype net_outcome = Response string | RequestException string | OtherException string

text \<open>An element of a parsed page, as far as the scrapers read it: its text and the
  \<^verbatim>\<open>href\<close> of the first link inside it, if there is one.\<close>

record element =
  get_text :: string
  href :: "string option"

text \<open>
  The world around a scraper: the network, the date of today (as a proleptic Gregorian
  ordinal), and the markup rules of each source, which are pattern matching on HTML and
  text and are taken as given: the elements that \<^verbatim>\<open>find_all\<close> selects in a page text
  (\<open>Inl\<close> when parsing raises), the regular-expression extractors, and
  \<^verbatim>\<open>_parse_enunciado_text\<close>, which returns a dictionary or \<^verbatim>\<open>None\<close>.
\<close>

record web =
  http_get :: "string \<Rightarrow> net_outcome"
  today :: int
  stj_result_items :: "string \<Rightarrow> string + element list"
  extract_process_number :: "string \<Rightarrow> string"
  extract_relator :: "string \<Rightarrow> string"
  fonaje_elements :: "string \<Rightarrow> string + element list"
  cnj_elements :: "string \<Rightarrow> string + element list"
  is_enunciado :: "string \<Rightarrow> bool"
  parse_enunciado_text :: "string \<Rightarrow> string \<Rightarrow> string \<Rightarrow> string \<Rightarrow> pydict option"

text \<open>\<^verbatim>\<open>BaseScraper.get_page\<close>: a \<^verbatim>\<open>RequestException\<close> is logged and turned into \<^verbatim>\<open>None\<close>; any
  other exception leaves the method (\<open>Inl\<close>).\<close>

definition get_page :: "web \<Rightarrow> string \<Rightarrow> string + string option" where
  "get_page w url =
     (case http_get w url of
        Response text \<Rightarrow> Inr (Some text)
      | RequestException e \<Rightarrow> Inr None
      | OtherException e \<Rightarrow> Inl e)"

text \<open>The truth value of a dictionary or \<^verbatim>\<open>None\<close>: \<^verbatim>\<open>None\<close> and the empty dictionary are
  false.\<close>

fun present :: "pydict option \<Rightarrow> pydict option" where
  "present None = None"
| "present (Some d) = (if d = [] then None else Some d)"

subsection \<open>STJScraper\<close>

definition stj_base_url :: string where
  "stj_base_url = ''https://www.stj.jus.br''"

definition stj_search_url :: string where
  "stj_search_url =
     stj_base_url @ ''/sites/portalp/Paginas/Jurisprudencia/Pesquisa-de-Jurisprudencia.aspx''"

text \<open>\<^verbatim>\<open>datetime.now() - timedelta(days=days_back)\<close> raises \<^verbatim>\<open>OverflowError\<close> unless the
  resulting date lies between the years 1 and 9999.\<close>

definition start_date_overflows :: "web \<Rightarrow> int \<Rightarrow> bool" where
  "start_date_overflows w days_back =
     (today w - days_back < 1 \<or> 3652059 < today w - days_back)"

text \<open>\<^verbatim>\<open>_extract_basic_info\<close>; nothing it does on an element can raise, so its \<^verbatim>\<open>except\<close>
  branch is never taken.\<close>

definition extract_basic_info :: "web \<Rightarrow> element \<Rightarrow> pydict option" where
  "extract_basic_info w item_element =
     (case href item_element of
        None \<Rightarrow> None
      | Some link \<Rightarrow>
          Some [(''url'', PyStr (if take 4 link = ''http'' then link else stj_base_url @ link)),
                (''numero_processo'', PyStr (extract_process_number w (get_text item_element))),
                (''relator'', PyStr (extract_relator w (get_text item_element))),
                (''tribunal'', PyStr ''STJ'')])"

fun stj_result_loop :: "web \<Rightarrow> element list \<Rightarrow> pydict list \<Rightarrow> pydict list" where
  "stj_result_loop w [] decisions = decisions"
| "stj_result_loop w (item # items) decisions =
     stj_result_loop w items
       (case present (extract_basic_info w item) of
          None \<Rightarrow> decisions
        | Some decision_data \<Rightarrow> decisions @ [decision_data])"

text \<open>\<^verbatim>\<open>STJScraper.search_recent_decisions\<close>. Every exception inside the \<^verbatim>\<open>try\<close> is
  caught; at each point where one can arise the list \<^verbatim>\<open>decisions\<close> is still empty.\<close>

definition stj_search_recent_decisions :: "web \<Rightarrow> int \<Rightarrow> pydict list" where
  "stj_search_recent_decisions w days_back =
     (if start_date_overflows w days_back then []
      else case get_page w stj_search_url of
             Inl e \<Rightarrow> []
           | Inr None \<Rightarrow> []
           | Inr (Some text) \<Rightarrow>
               (case stj_result_items w text of
                  Inl e \<Rightarrow> []
                | Inr result_items \<Rightarrow> stj_result_loop w result_items []))"

subsection \<open>EnunciadosScraper\<close>

definition fonaje_urls :: "(string \<times> string) list" where
  "fonaje_urls =
     [(''civeis'', ''https://www.cnj.jus.br/programas-e-acoes/juizados-especiais/enunciados-fonaje/enunciados-civeis/''),
      (''criminais'', ''https://www.cnj.jus.br/programas-e-acoes/juizados-especiais/enunciados-fonaje/enunciados-criminais/''),
      (''fazenda_publica'', ''https://www.cnj.jus.br/programas-e-acoes/juizados-especiais/enunciados-fonaje/enunciados-fazenda-publica/'')]"

definition cnj_url :: string where
  "cnj_url = ''https://www.cnj.jus.br/enunciados/''"

text \<open>The loop over the elements of a page, shared by \<^verbatim>\<open>_scrape_fonaje_enunciados\<close> and
  \<^verbatim>\<open>_scrape_cnj_enunciados\<close>.\<close>

fun enunciado_loop ::
  "web \<Rightarrow> string \<Rightarrow> string \<Rightarrow> string \<Rightarrow> element list \<Rightarrow> pydict list \<Rightarrow> pydict list" where
  "enunciado_loop w orgao_name tipo_name url [] enunciados = enunciados"
| "enunciado_loop w orgao_name tipo_name url (el # els) enunciados =
     enunciado_loop w orgao_name tipo_name url els
       (let text = clean_text (Some (get_text el)) in
        if is_enunciado w text
        then (case present (parse_enunciado_text w text orgao_name tipo_name url) of
                None \<Rightarrow> enunciados
              | Some enunciado_data \<Rightarrow> enunciados @ [enunciado_data])
        else enunciados)"

definition scrape_fonaje_enunciados :: "web \<Rightarrow> string \<Rightarrow> string \<Rightarrow> pydict list" where
  "scrape_fonaje_enunciados w url tipo_name =
     (case get_page w url of
        Inl e \<Rightarrow> []
      | Inr None \<Rightarrow> []
      | Inr (Some text) \<Rightarrow>
          (case fonaje_elements w text of
             Inl e \<Rightarrow> []
           | Inr els \<Rightarrow> enunciado_loop w ''FONAJE'' tipo_name url els []))"

definition scrape_cnj_enunciados :: "web \<Rightarrow> pydict list" where
  "scrape_cnj_enunciados w =
     (case get_page w cnj_url of
        Inl e \<Rightarrow> []
      | Inr None \<Rightarrow> []
      | Inr (Some text) \<Rightarrow>
          (case cnj_elements w text of
             Inl e \<Rightarrow> []
           | Inr els \<Rightarrow> enunciado_loop w ''CNJ'' ''GERAL'' cnj_url els []))"

fun fonaje_loop :: "web \<Rightarrow> (string \<times> string) list \<Rightarrow> pydict list \<Rightarrow> pydict list" where
  "fonaje_loop w [] all_found = all_found"
| "fonaje_loop w ((tipo_name, url) # urls) all_found =
     fonaje_loop w urls (all_found @ scrape_fonaje_enunciados w url tipo_name)"

definition get_all_enunciados :: "web \<Rightarrow> pydict list" where
  "get_all_enunciados w = fonaje_loop w fonaje_urls [] @ scrape_cnj_enunciados w"

definition enunciados_search_recent_decisions :: "web \<Rightarrow> int \<Rightarrow> pydict list" where
  "enunciados_search_recent_decisions w days_back = get_all_enunciados w"

definition enunciados_extract_decision_details :: "web \<Rightarrow> pyval \<Rightarrow> pydict option" where
  "enunciados_extract_decision_details w decision_url = None"

subsection \<open>BaseScraper.get_recent_jurisprudence\<close>

text \<open>
  The three abstract methods of \<^verbatim>\<open>BaseScraper\<close>, as a subclass provides them: each may
  return or raise (\<open>Inl\<close>). The composite method catches every exception of its \<^verbatim>\<open>try\<close>
  block and returns the empty list then.
\<close>

record base_scraper =
  get_tribunal_name :: string
  search_recent_decisions :: "int \<Rightarrow> string + pydict list"
  extract_decision_details :: "pyval \<Rightarrow> string + pydict option"

fun details_loop :: "base_scraper \<Rightarrow> pydict list \<Rightarrow> pydict list \<Rightarrow> string + pydict list" where
  "details_loop s [] detailed_decisions = Inr detailed_decisions"
| "details_loop s (decision # decisions) detailed_decisions =
     (case extract_decision_details s (py_get decision ''url'') of
        Inl e \<Rightarrow> Inl e
      | Inr details \<Rightarrow>
          details_loop s decisions
            (case present details of
               None \<Rightarrow> detailed_decisions
             | Some d \<Rightarrow> detailed_decisions @ [d]))"

definition get_recent_jurisprudence :: "base_scraper \<Rightarrow> int \<Rightarrow> pydict list" where
  "get_recent_jurisprudence s days_back =
     (case search_recent_decisions s days_back of
        Inl e \<Rightarrow> []
      | Inr decisions \<Rightarrow>
          (case details_loop s decisions [] of
             Inl e \<Rightarrow> []
           | Inr detailed_decisions \<Rightarrow> detailed_decisions))"

text \<open>\<^verbatim>\<open>EnunciadosScraper\<close> as an instance of the base class.\<close>

definition enunciados_scraper :: "web \<Rightarrow> base_scraper" where
  "enunciados_scraper w =
     \<lparr>get_tribunal_name = ''ENUNCIADOS'',
      search_recent_decisions = (\<lambda>days_back. Inr (enunciados_search_recent_decisions w days_back)),
      extract_decision_details = (\<lambda>url. Inr (enunciados_extract_decision_details w url))\<rparr>"

section \<open>The job scheduler\<close>

text \<open>
  A job of the APScheduler job store as this program sets it up: identifier, name, the
  function it calls, the hour and minute of its cron trigger with the time zone, the
  maximum number of concurrent instances and the misfire grace time in seconds (absent
  when \<^verbatim>\<open>add_job\<close> is not given one).
\<close>

record job =
  job_id :: string
  job_name :: string
  job_func :: string
  trigger_hour :: int
  trigger_minute :: int
  trigger_timezone :: string
  max_instances :: nat
  misfire_grace_time :: "int option"

record background_scheduler =
  jobs :: "job list"
  running :: bool

text \<open>\<^verbatim>\<open>SchedulerService\<close>: its \<^verbatim>\<open>scheduler\<close> attribute is \<^verbatim>\<open>None\<close> until \<^verbatim>\<open>init_app\<close> has run.\<close>

record scheduler_service =
  scheduler :: "background_scheduler option"

text \<open>The operations of the library on the job store. \<^verbatim>\<open>remove_job\<close> raises
  \<^verbatim>\<open>JobLookupError\<close> for an unknown identifier; \<^verbatim>\<open>add_job\<close> is always called with
  \<^verbatim>\<open>replace_existing=True\<close>.\<close>

definition get_job :: "background_scheduler \<Rightarrow> string \<Rightarrow> job option" where
  "get_job sch ident = find (\<lambda>j. job_id j = ident) (jobs sch)"

definition scheduler_remove_job :: "background_scheduler \<Rightarrow> string \<Rightarrow> string + background_scheduler" where
  "scheduler_remove_job sch ident =
     (if get_job sch ident = None then Inl (''No job by the id of '' @ ident @ '' was found'')
      else Inr (sch\<lparr>jobs := filter (\<lambda>j. job_id j \<noteq> ident) (jobs sch)\<rparr>))"

definition scheduler_add_job :: "background_scheduler \<Rightarrow> job \<Rightarrow> background_scheduler" where
  "scheduler_add_job sch new_job =
     (if get_job sch (job_id new_job) = None then sch\<lparr>jobs := jobs sch @ [new_job]\<rparr>
      else sch\<lparr>jobs := map (\<lambda>j. if job_id j = job_id new_job then new_job else j) (jobs sch)\<rparr>)"

text \<open>
  JSON values, as Python reads them from a request and writes them in a response: \<^verbatim>\<open>null\<close>
  is \<^verbatim>\<open>None\<close>; a number without fraction and exponent is an \<^verbatim>\<open>int\<close>; any other number
  is a \<^verbatim>\<open>float\<close>, given here by its value and by the text \<^verbatim>\<open>str\<close> makes of it (which
  always has a point or an exponent); \<^verbatim>\<open>Infinity\<close>, \<^verbatim>\<open>-Infinity\<close> (the flag is the sign)
  and \<^verbatim>\<open>NaN\<close> are read as floats too; an object is the list of the items of its
  dictionary. The bodies of the responses are objects with boolean and string members.
\<close>

datatype json =
    JNull
  | JBool bool
  | JInt int
  | JFloat rat string
  | JInfinity bool
  | JNaN
  | JStr string
  | JArr "json list"
  | JObj "(string \<times> json) list"

type_synonym body = "(string \<times> json) list"

type_synonym response = "body \<times> nat"

definition str_int :: "int \<Rightarrow> string" where
  "str_int n = (if n < 0 then ''-'' @ str_nat (nat (- n)) else str_nat (nat n))"

text \<open>The format \<^verbatim>\<open>{n:02d}\<close>: at least two characters, padded with a zero after the sign.\<close>

definition format_02d :: "int \<Rightarrow> string" where
  "format_02d n =
     (if n < 0 then ''-'' @ str_nat (nat (- n))
      else if n < 10 then ''0'' @ str_nat (nat n)
      else str_nat (nat n))"

text \<open>\<^verbatim>\<open>SchedulerService.get_scheduled_jobs\<close>, without the member \<^verbatim>\<open>next_run\<close>, which
  depends on the clock.\<close>

definition job_info :: "job \<Rightarrow> pydict" where
  "job_info j =
     [(''id'', PyStr (job_id j)), (''name'', PyStr (job_name j)),
      (''trigger'', PyStr (''cron[hour='' @ [CHR 0x27] @ str_int (trigger_hour j) @ [CHR 0x27]
                           @ '', minute='' @ [CHR 0x27] @ str_int (trigger_minute j)
                           @ [CHR 0x27] @ '']'')),
      (''func'', PyStr (job_func j))]"

definition get_scheduled_jobs :: "scheduler_service \<Rightarrow> pydict list" where
  "get_scheduled_jobs sv =
     (case scheduler sv of None \<Rightarrow> [] | Some sch \<Rightarrow> map job_info (jobs sch))"

text \<open>\<^verbatim>\<open>SchedulerService.remove_job\<close>: the new state of the service and the dictionary it
  returns.\<close>

definition remove_job :: "scheduler_service \<Rightarrow> string \<Rightarrow> scheduler_service \<times> body" where
  "remove_job sv ident =
     (case scheduler sv of
        None \<Rightarrow>
          (sv, [(''success'', JBool False),
                (''message'', JStr (''Scheduler n'' @ [CHR 0xE3] @ ''o inicializado''))])
      | Some sch \<Rightarrow>
          if get_job sch ident \<noteq> None then
            (case scheduler_remove_job sch ident of
               Inl e \<Rightarrow> (sv, [(''success'', JBool False), (''error'', JStr e)])
             | Inr sch' \<Rightarrow>
                 (sv\<lparr>scheduler := Some sch'\<rparr>,
                  [(''success'', JBool True),
                   (''message'', JStr (''Job '' @ ident @ '' removido com sucesso''))]))
          else
            (sv, [(''success'', JBool False),
                  (''message'', JStr (''Job n'' @ [CHR 0xE3] @ ''o encontrado''))]))"

subsection \<open>The routes\<close>

definition status_of :: "body \<Rightarrow> nat" where
  "status_of result = (if map_of result ''success'' = Some (JBool True) then 200 else 400)"

definition protected_job_message :: string where
  "protected_job_message =
     ''N'' @ [CHR 0xE3] @ ''o '' @ [CHR 0xE9] @ '' poss'' @ [CHR 0xED]
     @ ''vel remover o job principal de coleta di'' @ [CHR 0xE1] @ ''ria''"

text \<open>The route \<^verbatim>\<open>DELETE /jobs/<job_id>\<close>.\<close>

definition route_remove_job :: "scheduler_service \<Rightarrow> string \<Rightarrow> scheduler_service \<times> response" where
  "route_remove_job sv ident =
     (if ident = ''daily_jurisprudence'' then
        (sv, ([(''success'', JBool False), (''message'', JStr protected_job_message)], 400))
      else
        (case remove_job sv ident of
           (sv', result) \<Rightarrow> (sv', (result, status_of result))))"

definition daily_job :: "int \<Rightarrow> int \<Rightarrow> job" where
  "daily_job h m =
     \<lparr>job_id = ''daily_jurisprudence'',
      job_name = ''Coleta Di'' @ [CHR 0xE1] @ ''ria de Jurisprud'' @ [CHR 0xEA] @ ''ncia'',
      job_func = ''collect_daily_jurisprudence'',
      trigger_hour = h, trigger_minute = m, trigger_timezone = ''America/Sao_Paulo'',
      max_instances = 1, misfire_grace_time = Some 3600\<rparr>"

definition bad_request :: "string \<Rightarrow> response" where
  "bad_request msg = ([(''success'', JBool False), (''message'', JStr msg)], 400)"

definition internal_error :: "string \<Rightarrow> response" where
  "internal_error e = ([(''success'', JBool False), (''message'', JStr (''Erro interno: '' @ e))], 500)"

definition hour_message :: string where
  "hour_message = ''Hora deve estar entre 0 e 23''"

definition minute_message :: string where
  "minute_message = ''Minuto deve estar entre 0 e 59''"

definition no_data_message :: string where
  "no_data_message =
     ''Dados de configura'' @ [CHR 0xE7, CHR 0xE3] @ ''o s'' @ [CHR 0xE3] @ ''o obrigat''
     @ [CHR 0xF3] @ ''rios''"

text \<open>The truth value of a value of the request, and the name of its Python type.\<close>

fun json_truthy :: "json \<Rightarrow> bool" where
  "json_truthy JNull = False"
| "json_truthy (JBool b) = b"
| "json_truthy (JInt n) = (n \<noteq> 0)"
| "json_truthy (JFloat x s) = (x \<noteq> 0)"
| "json_truthy (JInfinity negative) = True"
| "json_truthy JNaN = True"
| "json_truthy (JStr s) = (s \<noteq> [])"
| "json_truthy (JArr xs) = (xs \<noteq> [])"
| "json_truthy (JObj members) = (members \<noteq> [])"

fun python_type :: "json \<Rightarrow> string" where
  "python_type JNull = ''NoneType''"
| "python_type (JBool b) = ''bool''"
| "python_type (JInt n) = ''int''"
| "python_type (JFloat x s) = ''float''"
| "python_type (JInfinity negative) = ''float''"
| "python_type JNaN = ''float''"
| "python_type (JStr s) = ''str''"
| "python_type (JArr xs) = ''list''"
| "python_type (JObj members) = ''dict''"

text \<open>\<^verbatim>\<open>dict.get(key, default)\<close>.\<close>

definition dict_get :: "(string \<times> json) list \<Rightarrow> string \<Rightarrow> json \<Rightarrow> json" where
  "dict_get members key fallback =
     (case map_of members key of None \<Rightarrow> fallback | Some v \<Rightarrow> v)"

text \<open>The texts of the exceptions that the route can meet.\<close>

definition not_comparable :: "string \<Rightarrow> string" where
  "not_comparable type_name =
     [CHR 0x27] @ ''<='' @ [CHR 0x27] @ '' not supported between instances of ''
     @ [CHR 0x27] @ ''int'' @ [CHR 0x27] @ '' and '' @ [CHR 0x27] @ type_name @ [CHR 0x27]"

definition no_attribute :: "string \<Rightarrow> string \<Rightarrow> string" where
  "no_attribute type_name attribute =
     [CHR 0x27] @ type_name @ [CHR 0x27] @ '' object has no attribute ''
     @ [CHR 0x27] @ attribute @ [CHR 0x27]"

definition unrecognized :: "string \<Rightarrow> string \<Rightarrow> string" where
  "unrecognized expr field =
     ''Unrecognized expression '' @ [CHR 0x22] @ expr @ [CHR 0x22]
     @ '' for field '' @ [CHR 0x22] @ field @ [CHR 0x22]"

text \<open>
  The test \<^verbatim>\<open>0 <= value <= bound\<close> of the route. Python compares an \<^verbatim>\<open>int\<close> with an
  \<^verbatim>\<open>int\<close>, with a \<^verbatim>\<open>bool\<close> (\<^verbatim>\<open>True\<close> is 1 and \<^verbatim>\<open>False\<close> is 0) and with a \<^verbatim>\<open>float\<close>
  (no infinity and no \<^verbatim>\<open>NaN\<close> lies between two integers); with any other value the
  comparison raises \<^verbatim>\<open>TypeError\<close>. The result is the text of the exception, or \<^verbatim>\<open>None\<close>
  when the test is false, or what the value is when the test is true: an \<^verbatim>\<open>int\<close> within
  the bounds, or a \<^verbatim>\<open>bool\<close> or \<^verbatim>\<open>float\<close> within the bounds, kept as the text \<^verbatim>\<open>str\<close> makes
  of it.
\<close>

datatype tested = Int_value int | Text_value string

fun range_test :: "json \<Rightarrow> int \<Rightarrow> string + tested option" where
  "range_test JNull bound = Inl (not_comparable ''NoneType'')"
| "range_test (JBool b) bound =
     Inr (if (0::int) \<le> of_bool b \<and> of_bool b \<le> bound
          then Some (Text_value (if b then ''True'' else ''False'')) else None)"
| "range_test (JInt n) bound =
     Inr (if 0 \<le> n \<and> n \<le> bound then Some (Int_value n) else None)"
| "range_test (JFloat x s) bound =
     Inr (if 0 \<le> x \<and> x \<le> of_int bound then Some (Text_value s) else None)"
| "range_test (JInfinity negative) bound = Inr None"
| "range_test JNaN bound = Inr None"
| "range_test (JStr s) bound = Inl (not_comparable ''str'')"
| "range_test (JArr xs) bound = Inl (not_comparable ''list'')"
| "range_test (JObj members) bound = Inl (not_comparable ''dict'')"

text \<open>
  \<^verbatim>\<open>CronTrigger(hour=hour, minute=minute, timezone=timezone)\<close> on two values that have
  passed the test. The library compiles each field, the hour before the minute, from the
  text \<^verbatim>\<open>str\<close> makes of the value: the digits of an \<^verbatim>\<open>int\<close> within the bounds are an
  expression of the field; the text of a \<^verbatim>\<open>bool\<close> or of a \<^verbatim>\<open>float\<close> matches no expression,
  and the constructor raises \<^verbatim>\<open>ValueError\<close>.
\<close>

fun cron_field :: "string \<Rightarrow> tested \<Rightarrow> string + int" where
  "cron_field field (Int_value n) = Inr n"
| "cron_field field (Text_value s) = Inl (unrecognized s field)"

definition CronTrigger :: "tested \<Rightarrow> tested \<Rightarrow> string + int \<times> int" where
  "CronTrigger hour minute =
     (case cron_field ''hour'' hour of
        Inl e \<Rightarrow> Inl e
      | Inr h \<Rightarrow>
          (case cron_field ''minute'' minute of
             Inl e \<Rightarrow> Inl e
           | Inr m \<Rightarrow> Inr (h, m)))"

text \<open>
  The route \<^verbatim>\<open>PUT /schedule-config\<close>; the argument is what \<^verbatim>\<open>request.get_json()\<close> gives:
  the value it returns, or the text of the exception it raises.
  Every exception ends in the \<^verbatim>\<open>except\<close> branch of the route, which answers with status
  500 and keeps what has been done to the scheduler before: reading \<^verbatim>\<open>get\<close> from a value
  that is no dictionary and \<^verbatim>\<open>add_job\<close> from a scheduler that is \<^verbatim>\<open>None\<close> raise
  \<^verbatim>\<open>AttributeError\<close>, the range tests may raise \<^verbatim>\<open>TypeError\<close>, and \<^verbatim>\<open>CronTrigger\<close> may raise
  \<^verbatim>\<open>ValueError\<close>. The daily job is removed after the range tests and before the trigger of
  the new job is built.
\<close>

definition update_schedule_config ::
  "scheduler_service \<Rightarrow> string + json \<Rightarrow> scheduler_service \<times> response"
  where
  "update_schedule_config sv request_json =
     (case request_json of
        Inl e \<Rightarrow> (sv, internal_error e)
      | Inr data \<Rightarrow>
          if \<not> json_truthy data then (sv, bad_request no_data_message)
          else
            (case data of
               JObj members \<Rightarrow>
                 (case dict_get members ''hour'' JNull of
                    JNull \<Rightarrow> (sv, bad_request hour_message)
                  | hour \<Rightarrow>
                    (case range_test hour 23 of
                       Inl e \<Rightarrow> (sv, internal_error e)
                     | Inr None \<Rightarrow> (sv, bad_request hour_message)
                     | Inr (Some hour_value) \<Rightarrow>
                       (case range_test (dict_get members ''minute'' (JInt 0)) 59 of
                          Inl e \<Rightarrow> (sv, internal_error e)
                        | Inr None \<Rightarrow> (sv, bad_request minute_message)
                        | Inr (Some minute_value) \<Rightarrow>
                          (case remove_job sv ''daily_jurisprudence'' of
                             (sv', result) \<Rightarrow>
                               (case scheduler sv' of
                                  None \<Rightarrow>
                                    (sv', internal_error (no_attribute ''NoneType'' ''add_job''))
                                | Some sch \<Rightarrow>
                                  (case CronTrigger hour_value minute_value of
                                     Inl e \<Rightarrow> (sv', internal_error e)
                                   | Inr (h, m) \<Rightarrow>
                                     (sv'\<lparr>scheduler :=
                                            Some (scheduler_add_job sch (daily_job h m))\<rparr>,
                                      ([(''success'', JBool True),
                                        (''message'',
                                         JStr (''Agendamento atualizado para ''
                                               @ format_02d h @ '':'' @ format_02d m)),
                                        (''new_schedule'',
                                         JStr (format_02d h @ '':'' @ format_02d m))],
                                       200))))))))
             | _ \<Rightarrow> (sv, internal_error (no_attribute (python_type data) ''get''))))"

section \<open>Sample inputs\<close>

text \<open>A scraped decision, a database holding given rows, scrapers that return a fixed batch
  or raise, and a storage whose commit fails for one tribunal and whose staging fails at one
  position.\<close>

definition example_decision :: "string \<Rightarrow> string \<Rightarrow> string \<Rightarrow> pydict" where
  "example_decision court number summary =
     [(''tribunal'', PyStr court), (''numero_processo'', PyStr number),
      (''relator'', PyStr ''MINISTRO RELATOR''), (''ementa'', PyStr summary),
      (''url_origem'', PyStr ''https://www.stj.jus.br/decisao'')]"

definition example_database :: "Jurisprudencia list \<Rightarrow> database" where
  "example_database rows =
     \<lparr>jurisprudencia_table = rows, enunciados_table = [], new_jurisprudencia = [],
      new_enunciados = [], autoflush = True\<rparr>"

definition returning :: "pydict list \<Rightarrow> scraper" where
  "returning records = \<lparr>recent_jurisprudence = (\<lambda>days_back. Inr records),
                         all_enunciados = Inr records\<rparr>"


definition broken_storage :: "string \<Rightarrow> nat \<Rightarrow> string \<Rightarrow> storage" where
  "broken_storage no_commit bad_position tribunal_name =
     \<lparr>stage_raises = (\<lambda>i. i = bad_position), commit_raises = (tribunal_name = no_commit),
      utcnow = (\<lambda>i. 100 + i)\<rparr>"

definition example_enunciado :: "int \<Rightarrow> pydict" where
  "example_enunciado number =
     [(''orgao'', PyStr ''FONAJE''), (''tipo'', PyStr ''CIVEIS''), (''numero'', PyInt number),
      (''texto'', PyStr ''O prazo conta-se da intimacao''), (''observacoes'', PyStr ''''),
      (''url_origem'', PyStr ''https://www.cnj.jus.br/enunciados/'')]"

text \<open>A court scraper that finds three candidates and gets no details for the second.\<close>

definition example_details :: "pyval \<Rightarrow> pydict option" where
  "example_details url =
     (if url = PyStr ''/decisao/2'' then None
      else Some [(''tribunal'', PyStr ''STJ''), (''url_origem'', url)])"

definition example_base_scraper :: base_scraper where
  "example_base_scraper =
     \<lparr>get_tribunal_name = ''STJ'',
      search_recent_decisions =
        (\<lambda>days_back. Inr [[(''url'', PyStr ''/decisao/1'')], [(''url'', PyStr ''/decisao/2'')],
                          [(''url'', PyStr ''/decisao/3'')]]),
      extract_decision_details = (\<lambda>url. Inr (example_details url))\<rparr>"

text \<open>A network on which every request times out, and one on which every page holds one
  enunciado in a paragraph.\<close>

definition unreachable_web :: web where
  "unreachable_web =
     \<lparr>http_get = (\<lambda>url. RequestException ''Connection timed out''), today = 739000,
      stj_result_items = (\<lambda>text. Inr []), extract_process_number = (\<lambda>text. []),
      extract_relator = (\<lambda>text. []), fonaje_elements = (\<lambda>text. Inr []),
      cnj_elements = (\<lambda>text. Inr []), is_enunciado = (\<lambda>text. False),
      parse_enunciado_text = (\<lambda>text orgao_name tipo_name url. None)\<rparr>"

definition online_web :: web where
  "online_web =
     \<lparr>http_get = (\<lambda>url. Response ''<p>ENUNCIADO 1 - Texto</p>''), today = 739000,
      stj_result_items = (\<lambda>text. Inr []), extract_process_number = (\<lambda>text. []),
      extract_relator = (\<lambda>text. []),
      fonaje_elements = (\<lambda>text. Inr [\<lparr>get_text = ''ENUNCIADO  1 - Texto '', href = None\<rparr>]),
      cnj_elements = (\<lambda>text. Inr []), is_enunciado = (\<lambda>text. take 9 text = ''ENUNCIADO''),
      parse_enunciado_text = (\<lambda>text orgao_name tipo_name url.
        Some [(''orgao'', PyStr orgao_name), (''tipo'', PyStr tipo_name), (''numero'', PyInt 1),
              (''texto'', PyStr (drop 14 text))])\<rparr>"

text \<open>The scheduler service as \<^verbatim>\<open>init_app\<close> leaves it: running, with the daily job at 9:00.\<close>

definition example_service :: scheduler_service where
  "example_service = \<lparr>scheduler = Some \<lparr>jobs = [daily_job 9 0], running = True\<rparr>\<rparr>"

section \<open>Text normalisation\<close>

lemma isspace_blank: "isspace CHR '' ''"
  by (simp add: isspace_def)

lemma split_from_wordy:
  "list_all (\<lambda>c. \<not> isspace c) w \<Longrightarrow> list_all wordy (split_from w s)"
  by (induction s arbitrary: w) (auto simp: wordy_def)

lemma py_split_wordy: "list_all wordy (py_split s)"
  by (simp add: py_split_def split_from_wordy)

lemma split_from_word:
  "list_all (\<lambda>c. \<not> isspace c) v \<Longrightarrow> split_from w (v @ s) = split_from (w @ v) s"
  by (induction v arbitrary: w) auto

lemma split_join:
  "list_all wordy ws \<Longrightarrow> split_from [] (py_join '' '' ws) = ws"
proof (induction "'' ''" ws rule: py_join.induct)
  case 1
  then show ?case by simp
next
  case (2 w)
  then have "split_from [] (w @ []) = split_from ([] @ w) []"
    by (intro split_from_word) (simp add: wordy_def)
  with 2 show ?case by (simp add: wordy_def)
next
  case (3 w v ws)
  from 3 have w: "w \<noteq> []" "list_all (\<lambda>c. \<not> isspace c) w"
    by (simp_all add: wordy_def)
  have "split_from [] (w @ '' '' @ py_join '' '' (v # ws))
        = split_from ([] @ w) ('' '' @ py_join '' '' (v # ws))"
    by (rule split_from_word) (rule w)
  also have "\<dots> = w # split_from [] (py_join '' '' (v # ws))"
    using w by (simp add: isspace_blank)
  also have "\<dots> = w # v # ws"
    using 3 by simp
  finally show ?case by simp
qed

lemma join_hd:
  "list_all wordy ws \<Longrightarrow> ws \<noteq> [] \<Longrightarrow>
     py_join '' '' ws \<noteq> [] \<and> \<not> isspace (hd (py_join '' '' ws))"
  by (induction "'' ''" ws rule: py_join.induct)
     (auto simp: wordy_def neq_Nil_conv)

lemma join_last:
  "list_all wordy ws \<Longrightarrow> ws \<noteq> [] \<Longrightarrow> \<not> isspace (last (py_join '' '' ws))"
proof (induction "'' ''" ws rule: py_join.induct)
  case 1
  then show ?case by simp
next
  case (2 w)
  then show ?case by (auto simp: wordy_def list_all_iff)
next
  case (3 w v ws)
  then have "py_join '' '' (v # ws) \<noteq> []"
    using join_hd [of "v # ws"] by simp
  with 3 show ?case by simp
qed

lemma no_double_space_word:
  "list_all (\<lambda>c. \<not> isspace c) w \<Longrightarrow> no_double_space s \<Longrightarrow> no_double_space (w @ s)"
proof (induction w)
  case Nil
  then show ?case by simp
next
  case (Cons c w)
  then show ?case by (cases "w @ s") auto
qed

lemma join_no_double_space:
  "list_all wordy ws \<Longrightarrow> no_double_space (py_join '' '' ws)"
proof (induction "'' ''" ws rule: py_join.induct)
  case 1
  then show ?case by simp
next
  case (2 w)
  then show ?case
    using no_double_space_word [of w "[]"] by (simp add: wordy_def)
next
  case (3 w v ws)
  from 3 have tl: "no_double_space (py_join '' '' (v # ws))"
    by simp
  from 3 have "py_join '' '' (v # ws) \<noteq> [] \<and> \<not> isspace (hd (py_join '' '' (v # ws)))"
    using join_hd [of "v # ws"] by simp
  then have "no_double_space (CHR '' '' # py_join '' '' (v # ws))"
    using tl by (cases "py_join '' '' (v # ws)") auto
  moreover from 3 have "list_all (\<lambda>c. \<not> isspace c) w"
    by (simp add: wordy_def)
  ultimately show ?case
    using no_double_space_word [of w "CHR '' '' # py_join '' '' (v # ws)"] by simp
qed

lemma dropWhile_unspaced:
  "\<not> isspace (hd s) \<Longrightarrow> dropWhile isspace s = s"
  by (cases s) auto

lemma py_strip_id:
  assumes "no_edge_space s"
  shows "py_strip s = s"
proof (cases s)
  case Nil
  then show ?thesis by (simp add: py_strip_def)
next
  case (Cons c cs)
  with assms have h: "\<not> isspace (hd s)" and l: "\<not> isspace (last s)"
    by (simp_all add: no_edge_space_def)
  from Cons have "s \<noteq> []"
    by simp
  then have "hd (rev s) = last s"
    by (simp add: hd_rev)
  with l have "\<not> isspace (hd (rev s))"
    by simp
  then have "dropWhile isspace (rev s) = rev s"
    by (rule dropWhile_unspaced)
  moreover from h have "dropWhile isspace s = s"
    by (rule dropWhile_unspaced)
  ultimately show ?thesis
    by (simp add: py_strip_def)
qed

lemma join_no_edge_space:
  "list_all wordy ws \<Longrightarrow> no_edge_space (py_join '' '' ws)"
  using join_hd [of ws] join_last [of ws]
  by (cases ws) (auto simp: no_edge_space_def)

lemma clean_text_join:
  "clean_text (Some s) = py_join '' '' (py_split s)"
proof (cases "s = []")
  case True
  then show ?thesis by (simp add: clean_text_def py_split_def)
next
  case False
  then show ?thesis
    by (simp add: clean_text_def py_strip_id join_no_edge_space py_split_wordy)
qed

lemma py_split_clean_text:
  "py_split (clean_text (Some s)) = py_split s"
proof -
  have "split_from [] (py_join '' '' (split_from [] s)) = split_from [] s"
    by (simp add: split_join split_from_wordy)
  then show ?thesis
    by (simp add: clean_text_join py_split_def)
qed

text \<open>
  C10. \<^verbatim>\<open>clean_text\<close> gives the empty string for \<^verbatim>\<open>None\<close> and for the empty string; for
  every string its result has no whitespace at either end and no two whitespace characters
  in a row; and cleaning a cleaned text changes nothing.
\<close>

theorem clean_text_normal_form:
  "clean_text None = [] \<and> clean_text (Some []) = []
   \<and> no_edge_space (clean_text (Some s))
   \<and> no_double_space (clean_text (Some s))
   \<and> clean_text (Some (clean_text (Some s))) = clean_text (Some s)
   \<and> clean_text (Some (clean_text None)) = clean_text None"
proof -
  have empty: "clean_text None = []" "clean_text (Some []) = []"
    "clean_text (Some (clean_text None)) = clean_text None"
    by (simp_all add: clean_text_def)
  have edges: "no_edge_space (clean_text (Some s))"
    by (simp add: clean_text_join join_no_edge_space py_split_wordy)
  have inner: "no_double_space (clean_text (Some s))"
    by (simp add: clean_text_join join_no_double_space py_split_wordy)
  have "clean_text (Some (clean_text (Some s)))
        = py_join '' '' (py_split (clean_text (Some s)))"
    by (rule clean_text_join)
  also have "\<dots> = py_join '' '' (py_split s)"
    by (simp only: py_split_clean_text)
  also have "\<dots> = clean_text (Some s)"
    by (simp only: clean_text_join)
  finally have "clean_text (Some (clean_text (Some s))) = clean_text (Some s)" .
  with empty edges inner show ?thesis
    by simp
qed

theorem clean_text_normal_form_witness:
  "clean_text (Some (CHR 0x0A # ''  Recurso   especial '' @ [CHR 0x09, CHR 0xA0] @ ''provido ''))
     = ''Recurso especial provido''
   \<and> no_edge_space ''Recurso especial provido''
   \<and> no_double_space ''Recurso especial provido''
   \<and> clean_text (Some ''Recurso especial provido'') = ''Recurso especial provido''"
proof -
  let ?s = "CHR 0x0A # ''  Recurso   especial '' @ [CHR 0x09, CHR 0xA0] @ ''provido ''"
  have v: "clean_text (Some ?s) = ''Recurso especial provido''"
    by code_simp
  have "no_edge_space (clean_text (Some ?s)) \<and> no_double_space (clean_text (Some ?s))
        \<and> clean_text (Some (clean_text (Some ?s))) = clean_text (Some ?s)"
    using clean_text_normal_form [of ?s] by (elim conjE) (intro conjI)
  then show ?thesis
    by (simp only: v simp_thms)
qed

section \<open>Staging and committing one batch\<close>

lemma stage_decision_tables:
  "jurisprudencia_table (fst (stage_decision st i d acc)) = jurisprudencia_table (fst acc)"
  "enunciados_table (fst (stage_decision st i d acc)) = enunciados_table (fst acc)"
  "new_enunciados (fst (stage_decision st i d acc)) = new_enunciados (fst acc)"
  "autoflush (fst (stage_decision st i d acc)) = autoflush (fst acc)"
  by (cases acc; simp split: option.split)+

lemma stage_decisions_tables:
  "jurisprudencia_table (fst (stage_decisions st i ds acc)) = jurisprudencia_table (fst acc)
   \<and> enunciados_table (fst (stage_decisions st i ds acc)) = enunciados_table (fst acc)
   \<and> new_enunciados (fst (stage_decisions st i ds acc)) = new_enunciados (fst acc)
   \<and> autoflush (fst (stage_decisions st i ds acc)) = autoflush (fst acc)"
  by (induction ds arbitrary: i acc) (simp_all add: stage_decision_tables)

lemma stage_enunciado_tables:
  "jurisprudencia_table (fst (stage_enunciado st i d acc)) = jurisprudencia_table (fst acc)"
  "enunciados_table (fst (stage_enunciado st i d acc)) = enunciados_table (fst acc)"
  "new_jurisprudencia (fst (stage_enunciado st i d acc)) = new_jurisprudencia (fst acc)"
  "autoflush (fst (stage_enunciado st i d acc)) = autoflush (fst acc)"
  by (cases acc; simp split: option.split)+

lemma stage_enunciados_tables:
  "jurisprudencia_table (fst (stage_enunciados st i ds acc)) = jurisprudencia_table (fst acc)
   \<and> enunciados_table (fst (stage_enunciados st i ds acc)) = enunciados_table (fst acc)
   \<and> new_jurisprudencia (fst (stage_enunciados st i ds acc)) = new_jurisprudencia (fst acc)
   \<and> autoflush (fst (stage_enunciados st i ds acc)) = autoflush (fst acc)"
  by (induction ds arbitrary: i acc) (simp_all add: stage_enunciado_tables)

lemma save_jurisprudencia_failed:
  assumes "commit_raises st"
  shows "snd (save_jurisprudencia st db ds) = 0"
    and "jurisprudencia_table (fst (save_jurisprudencia st db ds)) = jurisprudencia_table db"
    and "enunciados_table (fst (save_jurisprudencia st db ds)) = enunciados_table db"
    and "new_jurisprudencia (fst (save_jurisprudencia st db ds)) = []"
    and "new_enunciados (fst (save_jurisprudencia st db ds)) = []"
  using assms stage_decisions_tables [of st 0 ds "(db, 0)"]
  by (simp_all add: save_jurisprudencia_def session_rollback_def case_prod_beta)

lemma save_enunciados_failed:
  assumes "commit_raises st"
  shows "snd (save_enunciados st db ds) = 0"
    and "jurisprudencia_table (fst (save_enunciados st db ds)) = jurisprudencia_table db"
    and "enunciados_table (fst (save_enunciados st db ds)) = enunciados_table db"
    and "new_jurisprudencia (fst (save_enunciados st db ds)) = []"
    and "new_enunciados (fst (save_enunciados st db ds)) = []"
  using assms stage_enunciados_tables [of st 0 ds "(db, 0)"]
  by (simp_all add: save_enunciados_def session_rollback_def case_prod_beta)

lemma stage_decisions_append:
  "stage_decisions st i (xs @ ys) acc
   = stage_decisions st (i + length xs) ys (stage_decisions st i xs acc)"
  by (induction xs arbitrary: i acc) simp_all

lemma stage_enunciados_append:
  "stage_enunciados st i (xs @ ys) acc
   = stage_enunciados st (i + length xs) ys (stage_enunciados st i xs acc)"
  by (induction xs arbitrary: i acc) simp_all

lemma stage_decision_cong:
  "stage_raises st' j = stage_raises st i \<Longrightarrow> utcnow st' j = utcnow st i \<Longrightarrow>
   stage_decision st' j d acc = stage_decision st i d acc"
  by (cases acc) (simp split: option.split)

lemma stage_enunciado_cong:
  "stage_raises st' j = stage_raises st i \<Longrightarrow> utcnow st' j = utcnow st i \<Longrightarrow>
   stage_enunciado st' j d acc = stage_enunciado st i d acc"
  by (cases acc) (simp split: option.split)

lemma stage_decisions_agree:
  "(\<And>j. i \<le> j \<Longrightarrow> j < i + length ds \<Longrightarrow>
      stage_raises st' j = stage_raises st j \<and> utcnow st' j = utcnow st j) \<Longrightarrow>
   stage_decisions st' i ds acc = stage_decisions st i ds acc"
proof (induction ds arbitrary: i acc)
  case Nil
  then show ?case by simp
next
  case (Cons d ds)
  have "stage_decision st' i d acc = stage_decision st i d acc"
    using Cons.prems [of i] by (intro stage_decision_cong) simp_all
  moreover have "stage_decisions st' (Suc i) ds (stage_decision st i d acc)
                 = stage_decisions st (Suc i) ds (stage_decision st i d acc)"
    using Cons.prems by (intro Cons.IH) simp_all
  ultimately show ?case by simp
qed

lemma stage_enunciados_agree:
  "(\<And>j. i \<le> j \<Longrightarrow> j < i + length ds \<Longrightarrow>
      stage_raises st' j = stage_raises st j \<and> utcnow st' j = utcnow st j) \<Longrightarrow>
   stage_enunciados st' i ds acc = stage_enunciados st i ds acc"
proof (induction ds arbitrary: i acc)
  case Nil
  then show ?case by simp
next
  case (Cons d ds)
  have "stage_enunciado st' i d acc = stage_enunciado st i d acc"
    using Cons.prems [of i] by (intro stage_enunciado_cong) simp_all
  moreover have "stage_enunciados st' (Suc i) ds (stage_enunciado st i d acc)
                 = stage_enunciados st (Suc i) ds (stage_enunciado st i d acc)"
    using Cons.prems by (intro Cons.IH) simp_all
  ultimately show ?case by simp
qed

lemma stage_decisions_shift:
  "(\<And>j. i \<le> j \<Longrightarrow>
      stage_raises st' j = stage_raises st (Suc j) \<and> utcnow st' j = utcnow st (Suc j)) \<Longrightarrow>
   stage_decisions st' i ds acc = stage_decisions st (Suc i) ds acc"
proof (induction ds arbitrary: i acc)
  case Nil
  then show ?case by simp
next
  case (Cons d ds)
  have "stage_decision st' i d acc = stage_decision st (Suc i) d acc"
    using Cons.prems [of i] by (intro stage_decision_cong) simp_all
  moreover have "stage_decisions st' (Suc i) ds (stage_decision st (Suc i) d acc)
                 = stage_decisions st (Suc (Suc i)) ds (stage_decision st (Suc i) d acc)"
    using Cons.prems by (intro Cons.IH) simp_all
  ultimately show ?case by simp
qed

lemma stage_enunciados_shift:
  "(\<And>j. i \<le> j \<Longrightarrow>
      stage_raises st' j = stage_raises st (Suc j) \<and> utcnow st' j = utcnow st (Suc j)) \<Longrightarrow>
   stage_enunciados st' i ds acc = stage_enunciados st (Suc i) ds acc"
proof (induction ds arbitrary: i acc)
  case Nil
  then show ?case by simp
next
  case (Cons d ds)
  have "stage_enunciado st' i d acc = stage_enunciado st (Suc i) d acc"
    using Cons.prems [of i] by (intro stage_enunciado_cong) simp_all
  moreover have "stage_enunciados st' (Suc i) ds (stage_enunciado st (Suc i) d acc)
                 = stage_enunciados st (Suc (Suc i)) ds (stage_enunciado st (Suc i) d acc)"
    using Cons.prems by (intro Cons.IH) simp_all
  ultimately show ?case by simp
qed

lemma stage_decisions_skip:
  assumes "stage_raises st (length pre)"
  shows "stage_decisions st 0 (pre @ bad # post) acc
         = stage_decisions (without_position (length pre) st) 0 (pre @ post) acc"
proof -
  let ?st' = "without_position (length pre) st"
  let ?mid = "stage_decisions st 0 pre acc"
  have bad: "stage_decision st (length pre) bad ?mid = ?mid"
    using assms by (cases ?mid) simp
  have "stage_decisions st 0 (pre @ bad # post) acc
        = stage_decisions st (Suc (length pre)) post ?mid"
    by (simp add: stage_decisions_append bad)
  moreover have "stage_decisions ?st' 0 pre acc = ?mid"
    by (rule stage_decisions_agree) (simp add: without_position_def skip_at_def)
  moreover have "stage_decisions ?st' (length pre) post ?mid
                 = stage_decisions st (Suc (length pre)) post ?mid"
    by (rule stage_decisions_shift) (simp add: without_position_def skip_at_def)
  ultimately show ?thesis
    by (simp add: stage_decisions_append)
qed

lemma stage_enunciados_skip:
  assumes "stage_raises st (length pre)"
  shows "stage_enunciados st 0 (pre @ bad # post) acc
         = stage_enunciados (without_position (length pre) st) 0 (pre @ post) acc"
proof -
  let ?st' = "without_position (length pre) st"
  let ?mid = "stage_enunciados st 0 pre acc"
  have bad: "stage_enunciado st (length pre) bad ?mid = ?mid"
    using assms by (cases ?mid) simp
  have "stage_enunciados st 0 (pre @ bad # post) acc
        = stage_enunciados st (Suc (length pre)) post ?mid"
    by (simp add: stage_enunciados_append bad)
  moreover have "stage_enunciados ?st' 0 pre acc = ?mid"
    by (rule stage_enunciados_agree) (simp add: without_position_def skip_at_def)
  moreover have "stage_enunciados ?st' (length pre) post ?mid
                 = stage_enunciados st (Suc (length pre)) post ?mid"
    by (rule stage_enunciados_shift) (simp add: without_position_def skip_at_def)
  ultimately show ?thesis
    by (simp add: stage_enunciados_append)
qed

lemma stage_decision_count:
  "length (new_jurisprudencia (fst (stage_decision st i d acc))) + snd acc
   = length (new_jurisprudencia (fst acc)) + snd (stage_decision st i d acc)"
  by (cases acc) (simp split: option.split)

lemma stage_enunciado_count:
  "length (new_enunciados (fst (stage_enunciado st i d acc))) + snd acc
   = length (new_enunciados (fst acc)) + snd (stage_enunciado st i d acc)"
  by (cases acc) (simp split: option.split)

lemma stage_decisions_count:
  "length (new_jurisprudencia (fst (stage_decisions st i ds acc))) + snd acc
   = length (new_jurisprudencia (fst acc)) + snd (stage_decisions st i ds acc)"
proof (induction ds arbitrary: i acc)
  case Nil
  then show ?case by simp
next
  case (Cons d ds)
  from Cons.IH [of "Suc i" "stage_decision st i d acc"] stage_decision_count [of st i d acc]
  show ?case by simp
qed

lemma stage_enunciados_count:
  "length (new_enunciados (fst (stage_enunciados st i ds acc))) + snd acc
   = length (new_enunciados (fst acc)) + snd (stage_enunciados st i ds acc)"
proof (induction ds arbitrary: i acc)
  case Nil
  then show ?case by simp
next
  case (Cons d ds)
  from Cons.IH [of "Suc i" "stage_enunciado st i d acc"] stage_enunciado_count [of st i d acc]
  show ?case by simp
qed

lemma save_jurisprudencia_count:
  assumes "\<not> commit_raises st"
  shows "length (jurisprudencia_table (fst (save_jurisprudencia st db ds)))
         = length (jurisprudencia_table db) + length (new_jurisprudencia db)
           + snd (save_jurisprudencia st db ds)"
  using assms stage_decisions_count [of st 0 ds "(db, 0)"]
    stage_decisions_tables [of st 0 ds "(db, 0)"]
  by (simp add: save_jurisprudencia_def session_commit_def case_prod_beta)

lemma save_enunciados_count:
  assumes "\<not> commit_raises st"
  shows "length (enunciados_table (fst (save_enunciados st db ds)))
         = length (enunciados_table db) + length (new_enunciados db)
           + snd (save_enunciados st db ds)"
  using assms stage_enunciados_count [of st 0 ds "(db, 0)"]
    stage_enunciados_tables [of st 0 ds "(db, 0)"]
  by (simp add: save_enunciados_def session_commit_def case_prod_beta)

lemma query_jurisprudencia_iff:
  "query_jurisprudencia db (py_get d ''tribunal'') (py_get d ''numero_processo'') \<noteq> None
   \<longleftrightarrow> (\<exists>r \<in> set (visible_jurisprudencia db). same_decision d r)"
  by (auto simp: query_jurisprudencia_def same_decision_def find_None_iff)

lemma query_enunciado_iff:
  "query_enunciado db (py_get d ''orgao'') (py_get d ''tipo'') (py_get d ''numero'') \<noteq> None
   \<longleftrightarrow> (\<exists>r \<in> set (visible_enunciados db). same_enunciado d r)"
  by (auto simp: query_enunciado_def same_enunciado_def find_None_iff)

lemma stage_decision_existing:
  "query_jurisprudencia db (py_get d ''tribunal'') (py_get d ''numero_processo'') \<noteq> None
   \<Longrightarrow> stage_decision st i d (db, n) = (db, n)"
  by auto

lemma stage_enunciado_existing:
  "query_enunciado db (py_get d ''orgao'') (py_get d ''tipo'') (py_get d ''numero'') \<noteq> None
   \<Longrightarrow> stage_enunciado st i d (db, n) = (db, n)"
  by auto

lemma clean_commit: "clean_session db \<Longrightarrow> session_commit db = db"
  by (simp add: clean_session_def session_commit_def)

lemma clean_rollback: "clean_session db \<Longrightarrow> session_rollback db = db"
  by (simp add: clean_session_def session_rollback_def)

lemma stage_decision_pending:
  "\<exists>ext. new_jurisprudencia (fst (stage_decision st i d acc))
          = new_jurisprudencia (fst acc) @ ext"
  by (cases acc) (simp split: option.split)

lemma stage_enunciado_pending:
  "\<exists>ext. new_enunciados (fst (stage_enunciado st i d acc))
          = new_enunciados (fst acc) @ ext"
  by (cases acc) (simp split: option.split)

lemma stage_decisions_pending:
  "\<exists>ext. new_jurisprudencia (fst (stage_decisions st i ds acc))
          = new_jurisprudencia (fst acc) @ ext"
proof (induction ds arbitrary: i acc)
  case Nil
  then show ?case by simp
next
  case (Cons d ds)
  obtain e1 where "new_jurisprudencia (fst (stage_decision st i d acc))
                   = new_jurisprudencia (fst acc) @ e1"
    using stage_decision_pending by blast
  moreover obtain e2 where
    "new_jurisprudencia (fst (stage_decisions st (Suc i) ds (stage_decision st i d acc)))
     = new_jurisprudencia (fst (stage_decision st i d acc)) @ e2"
    using Cons.IH by blast
  ultimately show ?case by simp
qed

lemma stage_enunciados_pending:
  "\<exists>ext. new_enunciados (fst (stage_enunciados st i ds acc))
          = new_enunciados (fst acc) @ ext"
proof (induction ds arbitrary: i acc)
  case Nil
  then show ?case by simp
next
  case (Cons d ds)
  obtain e1 where "new_enunciados (fst (stage_enunciado st i d acc))
                   = new_enunciados (fst acc) @ e1"
    using stage_enunciado_pending by blast
  moreover obtain e2 where
    "new_enunciados (fst (stage_enunciados st (Suc i) ds (stage_enunciado st i d acc)))
     = new_enunciados (fst (stage_enunciado st i d acc)) @ e2"
    using Cons.IH by blast
  ultimately show ?case by simp
qed

lemma stage_decision_staged:
  assumes "\<not> stage_raises st i"
  shows "\<exists>r \<in> set (jurisprudencia_table (fst acc)
                   @ new_jurisprudencia (fst (stage_decision st i d acc))). same_decision d r"
proof (cases acc)
  case (Pair db n)
  show ?thesis
  proof (cases "query_jurisprudencia db (py_get d ''tribunal'') (py_get d ''numero_processo'')")
    case None
    have "same_decision d (new_Jurisprudencia d (utcnow st i))"
      by (simp add: same_decision_def new_Jurisprudencia_def)
    with None Pair assms show ?thesis by auto
  next
    case (Some existing)
    then have "\<exists>r \<in> set (visible_jurisprudencia db). same_decision d r"
      by (simp only: query_jurisprudencia_iff [symmetric]) simp
    then have "\<exists>r \<in> set (jurisprudencia_table db @ new_jurisprudencia db). same_decision d r"
      by (auto simp: visible_jurisprudencia_def split: if_splits)
    with Some Pair assms show ?thesis by simp
  qed
qed

lemma stage_enunciado_staged:
  assumes "\<not> stage_raises st i"
  shows "\<exists>r \<in> set (enunciados_table (fst acc)
                   @ new_enunciados (fst (stage_enunciado st i d acc))). same_enunciado d r"
proof (cases acc)
  case (Pair db n)
  show ?thesis
  proof (cases "query_enunciado db (py_get d ''orgao'') (py_get d ''tipo'') (py_get d ''numero'')")
    case None
    have "same_enunciado d (new_Enunciado d (utcnow st i))"
      by (simp add: same_enunciado_def new_Enunciado_def)
    with None Pair assms show ?thesis by auto
  next
    case (Some existing)
    then have "\<exists>r \<in> set (visible_enunciados db). same_enunciado d r"
      by (simp only: query_enunciado_iff [symmetric]) simp
    then have "\<exists>r \<in> set (enunciados_table db @ new_enunciados db). same_enunciado d r"
      by (auto simp: visible_enunciados_def split: if_splits)
    with Some Pair assms show ?thesis by simp
  qed
qed

lemma grows_refl: "grows db db"
  by (simp add: grows_def)

lemma grows_trans: "grows a b \<Longrightarrow> grows b c \<Longrightarrow> grows a c"
  by (auto simp: grows_def)

lemma save_jurisprudencia_grows:
  "grows db (fst (save_jurisprudencia st db ds))"
  using stage_decisions_tables [of st 0 ds "(db, 0)"]
  by (simp add: grows_def save_jurisprudencia_def session_commit_def session_rollback_def
      case_prod_beta)

lemma save_enunciados_grows:
  "grows db (fst (save_enunciados st db ds))"
  using stage_enunciados_tables [of st 0 ds "(db, 0)"]
  by (simp add: grows_def save_enunciados_def session_commit_def session_rollback_def
      case_prod_beta)

lemma save_jurisprudencia_clean:
  "clean_session (fst (save_jurisprudencia st db ds))"
  by (simp add: clean_session_def save_jurisprudencia_def session_commit_def
      session_rollback_def case_prod_beta)

lemma save_enunciados_clean:
  "clean_session (fst (save_enunciados st db ds))"
  by (simp add: clean_session_def save_enunciados_def session_commit_def
      session_rollback_def case_prod_beta)

lemma stage_decisions_settled:
  "\<forall>j < length ds. stage_raises st (i + j)
      \<or> (\<exists>r \<in> set (jurisprudencia_table db). same_decision (ds ! j) r) \<Longrightarrow>
   stage_decisions st i ds (db, n) = (db, n)"
proof (induction ds arbitrary: i)
  case Nil
  then show ?case by simp
next
  case (Cons d ds)
  from Cons.prems have "stage_raises st i
      \<or> (\<exists>r \<in> set (jurisprudencia_table db). same_decision d r)"
    by fastforce
  then have head: "stage_decision st i d (db, n) = (db, n)"
  proof
    assume "stage_raises st i"
    then show ?thesis by simp
  next
    assume "\<exists>r \<in> set (jurisprudencia_table db). same_decision d r"
    then have "\<exists>r \<in> set (visible_jurisprudencia db). same_decision d r"
      by (auto simp: visible_jurisprudencia_def)
    then show ?thesis
      by (intro stage_decision_existing) (simp only: query_jurisprudencia_iff)
  qed
  have "\<forall>j < length ds. stage_raises st (Suc i + j)
      \<or> (\<exists>r \<in> set (jurisprudencia_table db). same_decision (ds ! j) r)"
  proof (intro allI impI)
    fix j assume "j < length ds"
    with Cons.prems have "stage_raises st (i + Suc j)
      \<or> (\<exists>r \<in> set (jurisprudencia_table db). same_decision ((d # ds) ! Suc j) r)"
      by (metis Suc_less_eq length_Cons)
    then show "stage_raises st (Suc i + j)
      \<or> (\<exists>r \<in> set (jurisprudencia_table db). same_decision (ds ! j) r)"
      by simp
  qed
  then have "stage_decisions st (Suc i) ds (db, n) = (db, n)"
    by (rule Cons.IH)
  with head show ?case by simp
qed

lemma stage_decisions_staged_at:
  "\<forall>j < length ds. \<not> stage_raises st (i + j) \<longrightarrow>
     (\<exists>r \<in> set (jurisprudencia_table (fst acc)
            @ new_jurisprudencia (fst (stage_decisions st i ds acc))). same_decision (ds ! j) r)"
proof (induction ds arbitrary: i acc)
  case Nil
  then show ?case by simp
next
  case (Cons d ds)
  let ?mid = "stage_decision st i d acc"
  let ?fin = "stage_decisions st (Suc i) ds ?mid"
  obtain ext where ext: "new_jurisprudencia (fst ?fin) = new_jurisprudencia (fst ?mid) @ ext"
    using stage_decisions_pending by blast
  have hd: "\<exists>r \<in> set (jurisprudencia_table (fst acc) @ new_jurisprudencia (fst ?fin)).
          same_decision d r" if "\<not> stage_raises st i"
  proof -
    have "\<exists>r \<in> set (jurisprudencia_table (fst acc) @ new_jurisprudencia (fst ?mid)).
          same_decision d r"
      using that by (rule stage_decision_staged)
    then show ?thesis
      unfolding ext by auto
  qed
  have "\<forall>j < length ds. \<not> stage_raises st (Suc i + j) \<longrightarrow>
     (\<exists>r \<in> set (jurisprudencia_table (fst ?mid) @ new_jurisprudencia (fst ?fin)).
        same_decision (ds ! j) r)"
    by (rule Cons.IH)
  then have tl: "\<forall>j < length ds. \<not> stage_raises st (Suc i + j) \<longrightarrow>
     (\<exists>r \<in> set (jurisprudencia_table (fst acc) @ new_jurisprudencia (fst ?fin)).
        same_decision (ds ! j) r)"
    by (simp only: stage_decision_tables)
  show ?case
  proof (intro allI impI)
    fix j assume j: "j < length (d # ds)" and ok: "\<not> stage_raises st (i + j)"
    show "\<exists>r \<in> set (jurisprudencia_table (fst acc)
            @ new_jurisprudencia (fst (stage_decisions st i (d # ds) acc))).
            same_decision ((d # ds) ! j) r"
    proof (cases j)
      case 0
      with ok hd show ?thesis by simp
    next
      case (Suc k)
      with j ok tl show ?thesis by simp
    qed
  qed
qed

lemma session_rollback_stage_decision:
  "session_rollback (fst (stage_decision st i d acc)) = session_rollback (fst acc)"
  by (cases acc) (simp add: session_rollback_def split: option.split)

lemma session_rollback_stage_decisions:
  "session_rollback (fst (stage_decisions st i ds acc)) = session_rollback (fst acc)"
  by (induction ds arbitrary: i acc) (simp_all add: session_rollback_stage_decision)

lemma save_jurisprudencia_settled:
  assumes "clean_session db"
    and "commit_raises st \<or> (\<forall>j < length ds. stage_raises st j
           \<or> (\<exists>r \<in> set (jurisprudencia_table db). same_decision (ds ! j) r))"
  shows "save_jurisprudencia st db ds = (db, 0)"
proof (cases "commit_raises st")
  case True
  have "session_rollback (fst (stage_decisions st 0 ds (db, 0))) = session_rollback db"
    using session_rollback_stage_decisions [of st 0 ds "(db, 0)"] by simp
  with True assms(1) show ?thesis
    by (simp add: save_jurisprudencia_def case_prod_beta clean_rollback)
next
  case False
  with assms(2) have "\<forall>j < length ds. stage_raises st (0 + j)
           \<or> (\<exists>r \<in> set (jurisprudencia_table db). same_decision (ds ! j) r)"
    by simp
  then have "stage_decisions st 0 ds (db, 0) = (db, 0)"
    by (rule stage_decisions_settled)
  with False assms(1) show ?thesis
    by (simp add: save_jurisprudencia_def clean_commit)
qed

lemma save_jurisprudencia_settles:
  assumes "\<not> commit_raises st"
  shows "\<forall>j < length ds. stage_raises st j
     \<or> (\<exists>r \<in> set (jurisprudencia_table (fst (save_jurisprudencia st db ds))).
           same_decision (ds ! j) r)"
proof -
  let ?fin = "stage_decisions st 0 ds (db, 0)"
  have "\<forall>j < length ds. \<not> stage_raises st (0 + j) \<longrightarrow>
     (\<exists>r \<in> set (jurisprudencia_table (fst (db, 0::nat))
            @ new_jurisprudencia (fst ?fin)). same_decision (ds ! j) r)"
    by (rule stage_decisions_staged_at)
  moreover have "jurisprudencia_table (fst ?fin) = jurisprudencia_table db"
    using stage_decisions_tables [of st 0 ds "(db, 0)"] by simp
  ultimately show ?thesis
    using assms
    by (simp add: save_jurisprudencia_def session_commit_def case_prod_beta) blast
qed

lemma stage_enunciados_settled:
  "\<forall>j < length ds. stage_raises st (i + j)
      \<or> (\<exists>r \<in> set (enunciados_table db). same_enunciado (ds ! j) r) \<Longrightarrow>
   stage_enunciados st i ds (db, n) = (db, n)"
proof (induction ds arbitrary: i)
  case Nil
  then show ?case by simp
next
  case (Cons d ds)
  from Cons.prems have "stage_raises st i
      \<or> (\<exists>r \<in> set (enunciados_table db). same_enunciado d r)"
    by fastforce
  then have head: "stage_enunciado st i d (db, n) = (db, n)"
  proof
    assume "stage_raises st i"
    then show ?thesis by simp
  next
    assume "\<exists>r \<in> set (enunciados_table db). same_enunciado d r"
    then have "\<exists>r \<in> set (visible_enunciados db). same_enunciado d r"
      by (auto simp: visible_enunciados_def)
    then show ?thesis
      by (intro stage_enunciado_existing) (simp only: query_enunciado_iff)
  qed
  have "\<forall>j < length ds. stage_raises st (Suc i + j)
      \<or> (\<exists>r \<in> set (enunciados_table db). same_enunciado (ds ! j) r)"
  proof (intro allI impI)
    fix j assume "j < length ds"
    with Cons.prems have "stage_raises st (i + Suc j)
      \<or> (\<exists>r \<in> set (enunciados_table db). same_enunciado ((d # ds) ! Suc j) r)"
      by (metis Suc_less_eq length_Cons)
    then show "stage_raises st (Suc i + j)
      \<or> (\<exists>r \<in> set (enunciados_table db). same_enunciado (ds ! j) r)"
      by simp
  qed
  then have "stage_enunciados st (Suc i) ds (db, n) = (db, n)"
    by (rule Cons.IH)
  with head show ?case by simp
qed

lemma stage_enunciados_staged_at:
  "\<forall>j < length ds. \<not> stage_raises st (i + j) \<longrightarrow>
     (\<exists>r \<in> set (enunciados_table (fst acc)
            @ new_enunciados (fst (stage_enunciados st i ds acc))). same_enunciado (ds ! j) r)"
proof (induction ds arbitrary: i acc)
  case Nil
  then show ?case by simp
next
  case (Cons d ds)
  let ?mid = "stage_enunciado st i d acc"
  let ?fin = "stage_enunciados st (Suc i) ds ?mid"
  obtain ext where ext: "new_enunciados (fst ?fin) = new_enunciados (fst ?mid) @ ext"
    using stage_enunciados_pending by blast
  have hd: "\<exists>r \<in> set (enunciados_table (fst acc) @ new_enunciados (fst ?fin)).
          same_enunciado d r" if "\<not> stage_raises st i"
  proof -
    have "\<exists>r \<in> set (enunciados_table (fst acc) @ new_enunciados (fst ?mid)).
          same_enunciado d r"
      using that by (rule stage_enunciado_staged)
    then show ?thesis
      unfolding ext by auto
  qed
  have "\<forall>j < length ds. \<not> stage_raises st (Suc i + j) \<longrightarrow>
     (\<exists>r \<in> set (enunciados_table (fst ?mid) @ new_enunciados (fst ?fin)).
        same_enunciado (ds ! j) r)"
    by (rule Cons.IH)
  then have tl: "\<forall>j < length ds. \<not> stage_raises st (Suc i + j) \<longrightarrow>
     (\<exists>r \<in> set (enunciados_table (fst acc) @ new_enunciados (fst ?fin)).
        same_enunciado (ds ! j) r)"
    by (simp only: stage_enunciado_tables)
  show ?case
  proof (intro allI impI)
    fix j assume j: "j < length (d # ds)" and ok: "\<not> stage_raises st (i + j)"
    show "\<exists>r \<in> set (enunciados_table (fst acc)
            @ new_enunciados (fst (stage_enunciados st i (d # ds) acc))).
            same_enunciado ((d # ds) ! j) r"
    proof (cases j)
      case 0
      with ok hd show ?thesis by simp
    next
      case (Suc k)
      with j ok tl show ?thesis by simp
    qed
  qed
qed

lemma session_rollback_stage_enunciado:
  "session_rollback (fst (stage_enunciado st i d acc)) = session_rollback (fst acc)"
  by (cases acc) (simp add: session_rollback_def split: option.split)

lemma session_rollback_stage_enunciados:
  "session_rollback (fst (stage_enunciados st i ds acc)) = session_rollback (fst acc)"
  by (induction ds arbitrary: i acc) (simp_all add: session_rollback_stage_enunciado)

lemma save_enunciados_settled:
  assumes "clean_session db"
    and "commit_raises st \<or> (\<forall>j < length ds. stage_raises st j
           \<or> (\<exists>r \<in> set (enunciados_table db). same_enunciado (ds ! j) r))"
  shows "save_enunciados st db ds = (db, 0)"
proof (cases "commit_raises st")
  case True
  have "session_rollback (fst (stage_enunciados st 0 ds (db, 0))) = session_rollback db"
    using session_rollback_stage_enunciados [of st 0 ds "(db, 0)"] by simp
  with True assms(1) show ?thesis
    by (simp add: save_enunciados_def case_prod_beta clean_rollback)
next
  case False
  with assms(2) have "\<forall>j < length ds. stage_raises st (0 + j)
           \<or> (\<exists>r \<in> set (enunciados_table db). same_enunciado (ds ! j) r)"
    by simp
  then have "stage_enunciados st 0 ds (db, 0) = (db, 0)"
    by (rule stage_enunciados_settled)
  with False assms(1) show ?thesis
    by (simp add: save_enunciados_def clean_commit)
qed

lemma save_enunciados_settles:
  assumes "\<not> commit_raises st"
  shows "\<forall>j < length ds. stage_raises st j
     \<or> (\<exists>r \<in> set (enunciados_table (fst (save_enunciados st db ds))).
           same_enunciado (ds ! j) r)"
proof -
  let ?fin = "stage_enunciados st 0 ds (db, 0)"
  have "\<forall>j < length ds. \<not> stage_raises st (0 + j) \<longrightarrow>
     (\<exists>r \<in> set (enunciados_table (fst (db, 0::nat))
            @ new_enunciados (fst ?fin)). same_enunciado (ds ! j) r)"
    by (rule stage_enunciados_staged_at)
  moreover have "enunciados_table (fst ?fin) = enunciados_table db"
    using stage_enunciados_tables [of st 0 ds "(db, 0)"] by simp
  ultimately show ?thesis
    using assms
    by (simp add: save_enunciados_def session_commit_def case_prod_beta) blast
qed

lemma same_decision_key:
  "same_decision d (new_Jurisprudencia d' now) \<longleftrightarrow> decision_key d' = decision_key d"
  by (simp add: same_decision_def new_Jurisprudencia_def decision_key_def)

lemma stage_decision_fresh:
  assumes "\<not> stage_raises st i"
    and "\<forall>r \<in> set (jurisprudencia_table db @ new_jurisprudencia db). \<not> same_decision d r"
  shows "stage_decision st i d (db, n)
         = (db\<lparr>new_jurisprudencia :=
                 new_jurisprudencia db @ [new_Jurisprudencia d (utcnow st i)]\<rparr>, n + 1)"
proof -
  from assms(2) have "\<not> (\<exists>r \<in> set (visible_jurisprudencia db). same_decision d r)"
    by (auto simp: visible_jurisprudencia_def split: if_splits)
  then have "query_jurisprudencia db (py_get d ''tribunal'') (py_get d ''numero_processo'')
             = None"
    using query_jurisprudencia_iff [of db d] by simp
  with assms(1) show ?thesis by simp
qed

lemma stage_decisions_fresh:
  assumes "distinct (map decision_key ds)"
    and "\<forall>d \<in> set ds. \<forall>r \<in> set (jurisprudencia_table db @ new_jurisprudencia db).
           \<not> same_decision d r"
  shows "stage_decisions st i ds (db, n)
         = (db\<lparr>new_jurisprudencia := new_jurisprudencia db @ staged_decisions st i ds\<rparr>,
            n + length (staged_decisions st i ds))"
  using assms
proof (induction ds arbitrary: i db n)
  case Nil
  then show ?case by simp
next
  case (Cons d ds)
  show ?case
  proof (cases "stage_raises st i")
    case True
    then have "stage_decision st i d (db, n) = (db, n)"
      by simp
    moreover have "stage_decisions st (Suc i) ds (db, n)
         = (db\<lparr>new_jurisprudencia := new_jurisprudencia db @ staged_decisions st (Suc i) ds\<rparr>,
            n + length (staged_decisions st (Suc i) ds))"
      using Cons.prems by (intro Cons.IH) simp_all
    ultimately show ?thesis
      using True by (simp del: stage_decision.simps)
  next
    case False
    let ?row = "new_Jurisprudencia d (utcnow st i)"
    let ?db1 = "db\<lparr>new_jurisprudencia := new_jurisprudencia db @ [?row]\<rparr>"
    from Cons.prems(2) have "\<forall>r \<in> set (jurisprudencia_table db @ new_jurisprudencia db).
           \<not> same_decision d r"
      by simp
    with False have step: "stage_decision st i d (db, n) = (?db1, n + 1)"
      by (rule stage_decision_fresh)
    have fresh1: "\<forall>d' \<in> set ds. \<forall>r \<in> set (jurisprudencia_table ?db1 @ new_jurisprudencia ?db1).
           \<not> same_decision d' r"
    proof (intro ballI)
      fix d' r
      assume d': "d' \<in> set ds"
        and r: "r \<in> set (jurisprudencia_table ?db1 @ new_jurisprudencia ?db1)"
      from r consider "r \<in> set (jurisprudencia_table db @ new_jurisprudencia db)" | "r = ?row"
        by auto
      then show "\<not> same_decision d' r"
      proof cases
        case 1
        with Cons.prems(2) d' show ?thesis by simp
      next
        case 2
        from Cons.prems(1) d' have "decision_key d \<noteq> decision_key d'"
          by auto
        with 2 show ?thesis
          by (simp add: same_decision_key)
      qed
    qed
    have "stage_decisions st (Suc i) ds (?db1, n + 1)
         = (?db1\<lparr>new_jurisprudencia :=
                    new_jurisprudencia ?db1 @ staged_decisions st (Suc i) ds\<rparr>,
            n + 1 + length (staged_decisions st (Suc i) ds))"
      using Cons.prems(1) fresh1 by (intro Cons.IH) simp_all
    with step False show ?thesis
      by (simp del: stage_decision.simps)
  qed
qed

lemma staged_decisions_append:
  "staged_decisions st i (xs @ ys)
   = staged_decisions st i xs @ staged_decisions st (i + length xs) ys"
  by (induction xs arbitrary: i) simp_all

lemma staged_decisions_all:
  "\<forall>j. i \<le> j \<and> j < i + length ds \<longrightarrow> \<not> stage_raises st j \<Longrightarrow>
   length (staged_decisions st i ds) = length ds"
  by (induction ds arbitrary: i) simp_all

lemma staged_decisions_one_bad:
  assumes "\<forall>j. stage_raises st j \<longleftrightarrow> j = length before"
  shows "length (staged_decisions st 0 (before @ bad # rest)) = length before + length rest"
proof -
  have "length (staged_decisions st 0 before) = length before"
    using assms by (intro staged_decisions_all) simp
  moreover have "length (staged_decisions st (Suc (length before)) rest) = length rest"
    using assms by (intro staged_decisions_all) simp
  ultimately show ?thesis
    using assms by (simp add: staged_decisions_append)
qed

lemma same_enunciado_key:
  "same_enunciado d (new_Enunciado d' now) \<longleftrightarrow> enunciado_key d' = enunciado_key d"
  by (simp add: same_enunciado_def new_Enunciado_def enunciado_key_def)

lemma stage_enunciado_fresh:
  assumes "\<not> stage_raises st i"
    and "\<forall>r \<in> set (enunciados_table db @ new_enunciados db). \<not> same_enunciado d r"
  shows "stage_enunciado st i d (db, n)
         = (db\<lparr>new_enunciados :=
                 new_enunciados db @ [new_Enunciado d (utcnow st i)]\<rparr>, n + 1)"
proof -
  from assms(2) have "\<not> (\<exists>r \<in> set (visible_enunciados db). same_enunciado d r)"
    by (auto simp: visible_enunciados_def split: if_splits)
  then have "query_enunciado db (py_get d ''orgao'') (py_get d ''tipo'') (py_get d ''numero'')
             = None"
    using query_enunciado_iff [of db d] by simp
  with assms(1) show ?thesis by simp
qed

lemma stage_enunciados_fresh:
  assumes "distinct (map enunciado_key ds)"
    and "\<forall>d \<in> set ds. \<forall>r \<in> set (enunciados_table db @ new_enunciados db).
           \<not> same_enunciado d r"
  shows "stage_enunciados st i ds (db, n)
         = (db\<lparr>new_enunciados := new_enunciados db @ staged_enunciados st i ds\<rparr>,
            n + length (staged_enunciados st i ds))"
  using assms
proof (induction ds arbitrary: i db n)
  case Nil
  then show ?case by simp
next
  case (Cons d ds)
  show ?case
  proof (cases "stage_raises st i")
    case True
    then have "stage_enunciado st i d (db, n) = (db, n)"
      by simp
    moreover have "stage_enunciados st (Suc i) ds (db, n)
         = (db\<lparr>new_enunciados := new_enunciados db @ staged_enunciados st (Suc i) ds\<rparr>,
            n + length (staged_enunciados st (Suc i) ds))"
      using Cons.prems by (intro Cons.IH) simp_all
    ultimately show ?thesis
      using True by (simp del: stage_enunciado.simps)
  next
    case False
    let ?row = "new_Enunciado d (utcnow st i)"
    let ?db1 = "db\<lparr>new_enunciados := new_enunciados db @ [?row]\<rparr>"
    from Cons.prems(2) have "\<forall>r \<in> set (enunciados_table db @ new_enunciados db).
           \<not> same_enunciado d r"
      by simp
    with False have step: "stage_enunciado st i d (db, n) = (?db1, n + 1)"
      by (rule stage_enunciado_fresh)
    have fresh1: "\<forall>d' \<in> set ds. \<forall>r \<in> set (enunciados_table ?db1 @ new_enunciados ?db1).
           \<not> same_enunciado d' r"
    proof (intro ballI)
      fix d' r
      assume d': "d' \<in> set ds"
        and r: "r \<in> set (enunciados_table ?db1 @ new_enunciados ?db1)"
      from r consider "r \<in> set (enunciados_table db @ new_enunciados db)" | "r = ?row"
        by auto
      then show "\<not> same_enunciado d' r"
      proof cases
        case 1
        with Cons.prems(2) d' show ?thesis by simp
      next
        case 2
        from Cons.prems(1) d' have "enunciado_key d \<noteq> enunciado_key d'"
          by auto
        with 2 show ?thesis
          by (simp add: same_enunciado_key)
      qed
    qed
    have "stage_enunciados st (Suc i) ds (?db1, n + 1)
         = (?db1\<lparr>new_enunciados :=
                    new_enunciados ?db1 @ staged_enunciados st (Suc i) ds\<rparr>,
            n + 1 + length (staged_enunciados st (Suc i) ds))"
      using Cons.prems(1) fresh1 by (intro Cons.IH) simp_all
    with step False show ?thesis
      by (simp del: stage_enunciado.simps)
  qed
qed

lemma staged_enunciados_append:
  "staged_enunciados st i (xs @ ys)
   = staged_enunciados st i xs @ staged_enunciados st (i + length xs) ys"
  by (induction xs arbitrary: i) simp_all

lemma staged_enunciados_all:
  "\<forall>j. i \<le> j \<and> j < i + length ds \<longrightarrow> \<not> stage_raises st j \<Longrightarrow>
   length (staged_enunciados st i ds) = length ds"
  by (induction ds arbitrary: i) simp_all

lemma staged_enunciados_one_bad:
  assumes "\<forall>j. stage_raises st j \<longleftrightarrow> j = length before"
  shows "length (staged_enunciados st 0 (before @ bad # rest)) = length before + length rest"
proof -
  have "length (staged_enunciados st 0 before) = length before"
    using assms by (intro staged_enunciados_all) simp
  moreover have "length (staged_enunciados st (Suc (length before)) rest) = length rest"
    using assms by (intro staged_enunciados_all) simp
  ultimately show ?thesis
    using assms by (simp add: staged_enunciados_append)
qed

section \<open>The loop over the registry\<close>

lemma collect_loop_append:
  "collect_loop env d (xs @ ys) acc = collect_loop env d ys (collect_loop env d xs acc)"
  by (induction xs arbitrary: acc) simp_all

lemma collect_from_failed_commit:
  assumes "commit_raises (env nm)"
  shows "jurisprudencia_table (fst (collect_from env d (nm, sc) acc)) = jurisprudencia_table (fst acc)
    \<and> enunciados_table (fst (collect_from env d (nm, sc) acc)) = enunciados_table (fst acc)
    \<and> total_collected (snd (collect_from env d (nm, sc) acc)) = total_collected (snd acc)"
proof (cases acc)
  case (Pair db res)
  note j = save_jurisprudencia_failed [OF assms]
  note e = save_enunciados_failed [OF assms]
  show ?thesis
    unfolding Pair
    apply (simp split: sum.split prod.split)
    apply (intro conjI impI allI)
    using j e
    apply (metis fst_conv snd_conv)+
    done
qed

lemma collect_from_grows:
  "grows (fst acc) (fst (collect_from env d e acc))"
proof (cases acc)
  case (Pair db res)
  obtain nm sc where e: "e = (nm, sc)" by (cases e)
  show ?thesis
  proof (cases "nm = ''ENUNCIADOS''")
    case True
    then show ?thesis
      using save_enunciados_grows [of db "env nm"]
      by (cases "all_enunciados sc") (simp_all add: Pair e grows_refl case_prod_beta)
  next
    case False
    then show ?thesis
      using save_jurisprudencia_grows [of db "env nm"]
      by (cases "recent_jurisprudence sc d") (simp_all add: Pair e grows_refl case_prod_beta)
  qed
qed

lemma collect_loop_grows:
  "grows (fst acc) (fst (collect_loop env d reg acc))"
proof (induction reg arbitrary: acc)
  case Nil
  then show ?case by (simp add: grows_refl)
next
  case (Cons e reg)
  show ?case
    using collect_from_grows [of acc env d e] Cons [of "collect_from env d e acc"]
    by (auto intro: grows_trans)
qed

lemma collect_from_clean:
  assumes "fetched d e \<noteq> None \<or> clean_session (fst acc)"
  shows "clean_session (fst (collect_from env d e acc))"
proof (cases acc)
  case (Pair db res)
  obtain nm sc where e: "e = (nm, sc)" by (cases e)
  show ?thesis
  proof (cases "nm = ''ENUNCIADOS''")
    case True
    show ?thesis
    proof (cases "all_enunciados sc")
      case (Inl err)
      with True assms show ?thesis by (simp add: Pair e fetched_def)
    next
      case (Inr records)
      with True show ?thesis
        by (simp add: Pair e case_prod_beta save_enunciados_clean)
    qed
  next
    case False
    show ?thesis
    proof (cases "recent_jurisprudence sc d")
      case (Inl err)
      with False assms show ?thesis by (simp add: Pair e fetched_def)
    next
      case (Inr records)
      with False show ?thesis
        by (simp add: Pair e case_prod_beta save_jurisprudencia_clean)
    qed
  qed
qed

lemma collect_loop_clean:
  "(\<exists>e \<in> set reg. fetched d e \<noteq> None) \<or> clean_session (fst acc) \<Longrightarrow>
   clean_session (fst (collect_loop env d reg acc))"
proof (induction reg arbitrary: acc)
  case Nil
  then show ?case by simp
next
  case (Cons e reg)
  show ?case
  proof (cases "fetched d e \<noteq> None \<or> clean_session (fst acc)")
    case True
    then have "clean_session (fst (collect_from env d e acc))"
      by (rule collect_from_clean)
    then show ?thesis
      using Cons.IH [of "collect_from env d e acc"] by simp
  next
    case False
    with Cons.prems have "\<exists>e \<in> set reg. fetched d e \<noteq> None"
      by auto
    then show ?thesis
      using Cons.IH [of "collect_from env d e acc"] by simp
  qed
qed

lemma settled_grows:
  assumes "settled env d db e" and "grows db db'"
  shows "settled env d db' e"
proof (cases "fetched d e")
  case None
  then show ?thesis by (simp add: settled_def)
next
  case (Some records)
  from assms(2) obtain ej ee where
    ext: "jurisprudencia_table db' = jurisprudencia_table db @ ej"
         "enunciados_table db' = enunciados_table db @ ee"
    by (auto simp: grows_def)
  from assms(1) Some show ?thesis
    unfolding settled_def ext by (auto split: if_splits)
qed

lemma collect_from_settles:
  "settled env d (fst (collect_from env d e acc)) e"
proof (cases acc)
  case (Pair db res)
  obtain nm sc where e: "e = (nm, sc)" by (cases e)
  show ?thesis
  proof (cases "commit_raises (env nm)")
    case True
    then show ?thesis
      by (auto simp: settled_def e split: option.split)
  next
    case False
    note j = save_jurisprudencia_settles [OF False]
    note n = save_enunciados_settles [OF False]
    show ?thesis
    proof (cases "nm = ''ENUNCIADOS''")
      case True
      show ?thesis
      proof (cases "all_enunciados sc")
        case (Inl err)
        with True show ?thesis by (simp add: settled_def fetched_def e)
      next
        case (Inr records)
        with True n [of records db] show ?thesis
          by (simp add: settled_def fetched_def e Pair case_prod_beta)
      qed
    next
      case ne: False
      show ?thesis
      proof (cases "recent_jurisprudence sc d")
        case (Inl err)
        with ne show ?thesis by (simp add: settled_def fetched_def e)
      next
        case (Inr records)
        with ne j [of records db] show ?thesis
          by (simp add: settled_def fetched_def e Pair case_prod_beta)
      qed
    qed
  qed
qed

lemma collect_loop_settles:
  "\<forall>e \<in> set reg. settled env d (fst (collect_loop env d reg acc)) e"
proof (induction reg arbitrary: acc)
  case Nil
  then show ?case by simp
next
  case (Cons e reg)
  let ?mid = "collect_from env d e acc"
  have "settled env d (fst ?mid) e"
    by (rule collect_from_settles)
  moreover have "grows (fst ?mid) (fst (collect_loop env d reg ?mid))"
    by (rule collect_loop_grows)
  ultimately have "settled env d (fst (collect_loop env d reg ?mid)) e"
    by (rule settled_grows)
  with Cons.IH [of ?mid] show ?case by simp
qed

lemma collect_from_settled:
  assumes "settled env d db e" and "fetched d e \<noteq> None \<longrightarrow> clean_session db"
    and "no_recovery (env (fst e)) (env' (fst e))"
  shows "fst (collect_from env' d e (db, res)) = db
         \<and> total_collected (snd (collect_from env' d e (db, res))) = total_collected res"
proof -
  obtain nm sc where e: "e = (nm, sc)" by (cases e)
  from assms(3) have rec: "commit_raises (env' nm)
      \<or> (\<not> commit_raises (env nm) \<and> (\<forall>j. stage_raises (env nm) j \<longrightarrow> stage_raises (env' nm) j))"
    by (simp add: no_recovery_def e)
  show ?thesis
  proof (cases "nm = ''ENUNCIADOS''")
    case True
    show ?thesis
    proof (cases "all_enunciados sc")
      case (Inl err)
      with True show ?thesis by (simp add: e)
    next
      case (Inr records)
      with True assms(2) have cl: "clean_session db"
        by (simp add: fetched_def e)
      from Inr True assms(1) rec have "commit_raises (env' nm)
        \<or> (\<forall>j < length records. stage_raises (env' nm) j
             \<or> (\<exists>r \<in> set (enunciados_table db). same_enunciado (records ! j) r))"
        by (auto simp: settled_def fetched_def e)
      with cl have "save_enunciados (env' nm) db records = (db, 0)"
        by (rule save_enunciados_settled)
      with True Inr show ?thesis by (simp add: e)
    qed
  next
    case False
    show ?thesis
    proof (cases "recent_jurisprudence sc d")
      case (Inl err)
      with False show ?thesis by (simp add: e)
    next
      case (Inr records)
      with False assms(2) have cl: "clean_session db"
        by (simp add: fetched_def e)
      from Inr False assms(1) rec have "commit_raises (env' nm)
        \<or> (\<forall>j < length records. stage_raises (env' nm) j
             \<or> (\<exists>r \<in> set (jurisprudencia_table db). same_decision (records ! j) r))"
        by (auto simp: settled_def fetched_def e)
      with cl have "save_jurisprudencia (env' nm) db records = (db, 0)"
        by (rule save_jurisprudencia_settled)
      with False Inr show ?thesis by (simp add: e)
    qed
  qed
qed

lemma collect_loop_settled:
  assumes "\<forall>e \<in> set reg. settled env d db e"
    and "(\<exists>e \<in> set reg. fetched d e \<noteq> None) \<longrightarrow> clean_session db"
    and "\<forall>e \<in> set reg. no_recovery (env (fst e)) (env' (fst e))"
  shows "fst (collect_loop env' d reg (db, res)) = db
         \<and> total_collected (snd (collect_loop env' d reg (db, res))) = total_collected res"
  using assms
proof (induction reg arbitrary: res)
  case Nil
  then show ?case by simp
next
  case (Cons e reg)
  let ?mid = "collect_from env' d e (db, res)"
  have mid: "fst ?mid = db \<and> total_collected (snd ?mid) = total_collected res"
    using Cons.prems by (intro collect_from_settled) auto
  then have "?mid = (db, snd ?mid)"
    by (metis prod.collapse)
  moreover have "fst (collect_loop env' d reg (db, snd ?mid)) = db
      \<and> total_collected (snd (collect_loop env' d reg (db, snd ?mid)))
        = total_collected (snd ?mid)"
    using Cons.prems by (intro Cons.IH) auto
  ultimately show ?case
    using mid by simp
qed

lemma second_run_collects_nothing:
  assumes "\<forall>e \<in> set scrapers. no_recovery (env (fst e)) (env' (fst e))"
  shows "total_collected (snd (collect_all_recent_jurisprudence env' scrapers days_back
           (fst (collect_all_recent_jurisprudence env scrapers days_back db0)))) = 0
   \<and> fst (collect_all_recent_jurisprudence env' scrapers days_back
        (fst (collect_all_recent_jurisprudence env scrapers days_back db0)))
     = fst (collect_all_recent_jurisprudence env scrapers days_back db0)"
proof -
  let ?start = "(db0, \<lparr>success = [], errors = [], total_collected = 0\<rparr>)"
  let ?db1 = "fst (collect_loop env days_back scrapers ?start)"
  have cov: "\<forall>e \<in> set scrapers. settled env days_back ?db1 e"
    by (rule collect_loop_settles)
  have cl: "(\<exists>e \<in> set scrapers. fetched days_back e \<noteq> None) \<longrightarrow> clean_session ?db1"
    by (auto intro: collect_loop_clean)
  have "fst (collect_loop env' days_back scrapers
               (?db1, \<lparr>success = [], errors = [], total_collected = 0\<rparr>)) = ?db1
        \<and> total_collected (snd (collect_loop env' days_back scrapers
               (?db1, \<lparr>success = [], errors = [], total_collected = 0\<rparr>)))
          = total_collected \<lparr>success = [], errors = [], total_collected = 0\<rparr>"
    using cov cl assms by (rule collect_loop_settled)
  then show ?thesis
    by (simp add: collect_all_recent_jurisprudence_def)
qed

section \<open>Batch atomicity\<close>

text \<open>
  C3. When the commit of a batch fails, \<^verbatim>\<open>_save_jurisprudencia\<close> and \<^verbatim>\<open>_save_enunciados\<close>
  report zero saved records, leave both tables as they were before the batch and leave
  nothing pending in the session. In the loop over the registry the tables after a tribunal
  whose commit failed are the tables left by the tribunals processed before it, and the
  total does not change: what earlier tribunals committed stays committed.
\<close>

theorem failed_commit_rolls_back_batch:
  assumes "commit_raises (env tribunal_name)"
  shows "snd (save_jurisprudencia (env tribunal_name) db records) = 0
    \<and> jurisprudencia_table (fst (save_jurisprudencia (env tribunal_name) db records))
        = jurisprudencia_table db
    \<and> enunciados_table (fst (save_jurisprudencia (env tribunal_name) db records))
        = enunciados_table db
    \<and> new_jurisprudencia (fst (save_jurisprudencia (env tribunal_name) db records)) = []
    \<and> snd (save_enunciados (env tribunal_name) db records) = 0
    \<and> jurisprudencia_table (fst (save_enunciados (env tribunal_name) db records))
        = jurisprudencia_table db
    \<and> enunciados_table (fst (save_enunciados (env tribunal_name) db records))
        = enunciados_table db
    \<and> new_enunciados (fst (save_enunciados (env tribunal_name) db records)) = []
    \<and> jurisprudencia_table
         (fst (collect_loop env days_back (previous @ [(tribunal_name, scraper)]) acc))
        = jurisprudencia_table (fst (collect_loop env days_back previous acc))
    \<and> enunciados_table
         (fst (collect_loop env days_back (previous @ [(tribunal_name, scraper)]) acc))
        = enunciados_table (fst (collect_loop env days_back previous acc))
    \<and> total_collected
         (snd (collect_loop env days_back (previous @ [(tribunal_name, scraper)]) acc))
        = total_collected (snd (collect_loop env days_back previous acc))"
proof -
  note j = save_jurisprudencia_failed [OF assms, of db records]
  note e = save_enunciados_failed [OF assms, of db records]
  have step: "collect_loop env days_back (previous @ [(tribunal_name, scraper)]) acc
              = collect_from env days_back (tribunal_name, scraper)
                  (collect_loop env days_back previous acc)"
    by (simp add: collect_loop_append)
  note c = collect_from_failed_commit
    [of env tribunal_name days_back scraper "collect_loop env days_back previous acc", OF assms]
  from j e c show ?thesis
    unfolding step by simp
qed

theorem failed_commit_rolls_back_batch_witness:
  "commit_raises (broken_storage ''STJ'' 9 ''STJ'')
   \<and> snd (save_jurisprudencia (broken_storage ''STJ'' 9 ''STJ'') (example_database [])
        [example_decision ''STJ'' ''0001234-56.2024.8.26.0000'' ''Agravo'']) = 0
   \<and> jurisprudencia_table (fst (collect_loop (broken_storage ''STJ'' 9) 7
        ([(''STF'', returning [example_decision ''STF'' ''0000001-11.2024.1.00.0000'' ''Habeas corpus''])]
         @ [(''STJ'', returning [example_decision ''STJ'' ''0001234-56.2024.8.26.0000'' ''Agravo''])])
        (example_database [], \<lparr>success = [], errors = [], total_collected = 0\<rparr>)))
     = [new_Jurisprudencia (example_decision ''STF'' ''0000001-11.2024.1.00.0000'' ''Habeas corpus'')
          100]
   \<and> total_collected (snd (collect_loop (broken_storage ''STJ'' 9) 7
        ([(''STF'', returning [example_decision ''STF'' ''0000001-11.2024.1.00.0000'' ''Habeas corpus''])]
         @ [(''STJ'', returning [example_decision ''STJ'' ''0001234-56.2024.8.26.0000'' ''Agravo''])])
        (example_database [], \<lparr>success = [], errors = [], total_collected = 0\<rparr>))) = 1"
proof -
  let ?env = "broken_storage ''STJ'' 9"
  let ?stf = "[(''STF'', returning [example_decision ''STF'' ''0000001-11.2024.1.00.0000'' ''Habeas corpus''])]"
  let ?acc = "(example_database [], \<lparr>success = [], errors = [], total_collected = 0\<rparr>)"
  have h: "commit_raises (?env ''STJ'')"
    by (simp add: broken_storage_def)
  have before: "jurisprudencia_table (fst (collect_loop ?env 7 ?stf ?acc))
      = [new_Jurisprudencia (example_decision ''STF'' ''0000001-11.2024.1.00.0000'' ''Habeas corpus'')
          100]"
    "total_collected (snd (collect_loop ?env 7 ?stf ?acc)) = 1"
    by code_simp+
  from failed_commit_rolls_back_batch [of ?env "''STJ''" "example_database []"
      "[example_decision ''STJ'' ''0001234-56.2024.8.26.0000'' ''Agravo'']" 7 ?stf
      "returning [example_decision ''STJ'' ''0001234-56.2024.8.26.0000'' ''Agravo'']" ?acc, OF h]
  show ?thesis
    using h before by simp
qed

section \<open>Isolation of one record inside a batch\<close>

text \<open>
  C9. When the \<^verbatim>\<open>try\<close> block of one record of a batch raises, \<^verbatim>\<open>_save_jurisprudencia\<close>
  and \<^verbatim>\<open>_save_enunciados\<close> skip that record and go on with the rest of the batch:
  \<^item> the result is the one of the batch without that record;
  \<^item> after the loop, every record whose block did not raise has a row with its key in
    the table or in the session, and the counter is exactly the number of rows the loop
    added to the session, whether or not the commit succeeds afterwards;
  \<^item> for a batch with distinct keys, none of them stored yet, the loop appends one row
    for each position that did not raise, in order, and counts them; when the bad record
    is the only one that raises, the counter is the size of the batch minus one, and so
    is the count returned once the commit succeeds;
  \<^item> when the commit succeeds, every record whose block did not raise has a row with its
    key in the table, and the count returned is the number of rows the batch added to
    the table (beyond what was pending in the session on entry).
\<close>

theorem bad_record_is_skipped:
  assumes "stage_raises st (length before)"
  shows "save_jurisprudencia st db (before @ bad # rest)
         = save_jurisprudencia (without_position (length before) st) db (before @ rest)
    \<and> save_enunciados st db (before @ bad # rest)
         = save_enunciados (without_position (length before) st) db (before @ rest)
    \<and> (\<forall>j < length (before @ bad # rest). \<not> stage_raises st j \<longrightarrow>
          (\<exists>r \<in> set (jurisprudencia_table db @ new_jurisprudencia
                        (fst (stage_decisions st 0 (before @ bad # rest) (db, 0)))).
             same_decision ((before @ bad # rest) ! j) r))
    \<and> (\<forall>j < length (before @ bad # rest). \<not> stage_raises st j \<longrightarrow>
          (\<exists>r \<in> set (enunciados_table db @ new_enunciados
                        (fst (stage_enunciados st 0 (before @ bad # rest) (db, 0)))).
             same_enunciado ((before @ bad # rest) ! j) r))
    \<and> length (new_jurisprudencia (fst (stage_decisions st 0 (before @ bad # rest) (db, 0))))
        = length (new_jurisprudencia db)
          + snd (stage_decisions st 0 (before @ bad # rest) (db, 0))
    \<and> length (new_enunciados (fst (stage_enunciados st 0 (before @ bad # rest) (db, 0))))
        = length (new_enunciados db)
          + snd (stage_enunciados st 0 (before @ bad # rest) (db, 0))
    \<and> (distinct (map decision_key (before @ bad # rest))
        \<and> (\<forall>d \<in> set (before @ bad # rest).
              \<forall>r \<in> set (jurisprudencia_table db @ new_jurisprudencia db). \<not> same_decision d r)
        \<longrightarrow> stage_decisions st 0 (before @ bad # rest) (db, 0)
            = (db\<lparr>new_jurisprudencia :=
                    new_jurisprudencia db @ staged_decisions st 0 (before @ bad # rest)\<rparr>,
               length (staged_decisions st 0 (before @ bad # rest))))
    \<and> (distinct (map enunciado_key (before @ bad # rest))
        \<and> (\<forall>d \<in> set (before @ bad # rest).
              \<forall>r \<in> set (enunciados_table db @ new_enunciados db). \<not> same_enunciado d r)
        \<longrightarrow> stage_enunciados st 0 (before @ bad # rest) (db, 0)
            = (db\<lparr>new_enunciados :=
                    new_enunciados db @ staged_enunciados st 0 (before @ bad # rest)\<rparr>,
               length (staged_enunciados st 0 (before @ bad # rest))))
    \<and> (distinct (map decision_key (before @ bad # rest))
        \<and> (\<forall>d \<in> set (before @ bad # rest).
              \<forall>r \<in> set (jurisprudencia_table db @ new_jurisprudencia db). \<not> same_decision d r)
        \<and> (\<forall>j. stage_raises st j \<longleftrightarrow> j = length before)
        \<longrightarrow> snd (stage_decisions st 0 (before @ bad # rest) (db, 0))
              = length before + length rest
          \<and> (\<not> commit_raises st \<longrightarrow>
                snd (save_jurisprudencia st db (before @ bad # rest))
                = length before + length rest))
    \<and> (distinct (map enunciado_key (before @ bad # rest))
        \<and> (\<forall>d \<in> set (before @ bad # rest).
              \<forall>r \<in> set (enunciados_table db @ new_enunciados db). \<not> same_enunciado d r)
        \<and> (\<forall>j. stage_raises st j \<longleftrightarrow> j = length before)
        \<longrightarrow> snd (stage_enunciados st 0 (before @ bad # rest) (db, 0))
              = length before + length rest
          \<and> (\<not> commit_raises st \<longrightarrow>
                snd (save_enunciados st db (before @ bad # rest))
                = length before + length rest))
    \<and> (\<not> commit_raises st \<longrightarrow>
         (\<forall>j < length (before @ bad # rest). stage_raises st j
            \<or> (\<exists>r \<in> set (jurisprudencia_table
                           (fst (save_jurisprudencia st db (before @ bad # rest)))).
                  same_decision ((before @ bad # rest) ! j) r)))
    \<and> (\<not> commit_raises st \<longrightarrow>
         (\<forall>j < length (before @ bad # rest). stage_raises st j
            \<or> (\<exists>r \<in> set (enunciados_table
                           (fst (save_enunciados st db (before @ bad # rest)))).
                  same_enunciado ((before @ bad # rest) ! j) r)))
    \<and> (\<not> commit_raises st \<longrightarrow>
         length (jurisprudencia_table (fst (save_jurisprudencia st db (before @ bad # rest))))
         = length (jurisprudencia_table db) + length (new_jurisprudencia db)
           + snd (save_jurisprudencia st db (before @ bad # rest)))
    \<and> (\<not> commit_raises st \<longrightarrow>
         length (enunciados_table (fst (save_enunciados st db (before @ bad # rest))))
         = length (enunciados_table db) + length (new_enunciados db)
           + snd (save_enunciados st db (before @ bad # rest)))"
proof -
  let ?batch = "before @ bad # rest"
  have c: "commit_raises (without_position (length before) st) = commit_raises st"
    by (simp add: without_position_def)
  have skip_j: "save_jurisprudencia st db ?batch
        = save_jurisprudencia (without_position (length before) st) db (before @ rest)"
    unfolding save_jurisprudencia_def c
    by (simp only: stage_decisions_skip [OF assms])
  have skip_e: "save_enunciados st db ?batch
        = save_enunciados (without_position (length before) st) db (before @ rest)"
    unfolding save_enunciados_def c
    by (simp only: stage_enunciados_skip [OF assms])
  have row_j: "\<forall>j < length ?batch. \<not> stage_raises st j \<longrightarrow>
          (\<exists>r \<in> set (jurisprudencia_table db @ new_jurisprudencia
                        (fst (stage_decisions st 0 ?batch (db, 0)))).
             same_decision (?batch ! j) r)"
    using stage_decisions_staged_at [of ?batch st 0 "(db, 0)"] by simp
  have row_e: "\<forall>j < length ?batch. \<not> stage_raises st j \<longrightarrow>
          (\<exists>r \<in> set (enunciados_table db @ new_enunciados
                        (fst (stage_enunciados st 0 ?batch (db, 0)))).
             same_enunciado (?batch ! j) r)"
    using stage_enunciados_staged_at [of ?batch st 0 "(db, 0)"] by simp
  have count_j: "length (new_jurisprudencia (fst (stage_decisions st 0 ?batch (db, 0))))
        = length (new_jurisprudencia db) + snd (stage_decisions st 0 ?batch (db, 0))"
    using stage_decisions_count [of st 0 ?batch "(db, 0)"] by simp
  have count_e: "length (new_enunciados (fst (stage_enunciados st 0 ?batch (db, 0))))
        = length (new_enunciados db) + snd (stage_enunciados st 0 ?batch (db, 0))"
    using stage_enunciados_count [of st 0 ?batch "(db, 0)"] by simp
  have fresh_j: "stage_decisions st 0 ?batch (db, 0)
            = (db\<lparr>new_jurisprudencia := new_jurisprudencia db @ staged_decisions st 0 ?batch\<rparr>,
               length (staged_decisions st 0 ?batch))"
    if "distinct (map decision_key ?batch)"
      "\<forall>d \<in> set ?batch. \<forall>r \<in> set (jurisprudencia_table db @ new_jurisprudencia db).
         \<not> same_decision d r"
    using stage_decisions_fresh [OF that, of st 0 0] by simp
  have fresh_e: "stage_enunciados st 0 ?batch (db, 0)
            = (db\<lparr>new_enunciados := new_enunciados db @ staged_enunciados st 0 ?batch\<rparr>,
               length (staged_enunciados st 0 ?batch))"
    if "distinct (map enunciado_key ?batch)"
      "\<forall>d \<in> set ?batch. \<forall>r \<in> set (enunciados_table db @ new_enunciados db).
         \<not> same_enunciado d r"
    using stage_enunciados_fresh [OF that, of st 0 0] by simp
  have one_j: "snd (stage_decisions st 0 ?batch (db, 0)) = length before + length rest
          \<and> (\<not> commit_raises st \<longrightarrow>
                snd (save_jurisprudencia st db ?batch) = length before + length rest)"
    if "distinct (map decision_key ?batch)"
      "\<forall>d \<in> set ?batch. \<forall>r \<in> set (jurisprudencia_table db @ new_jurisprudencia db).
         \<not> same_decision d r"
      "\<forall>j. stage_raises st j \<longleftrightarrow> j = length before"
    using fresh_j [OF that(1,2)] staged_decisions_one_bad [OF that(3), of bad rest]
    by (simp add: save_jurisprudencia_def)
  have one_e: "snd (stage_enunciados st 0 ?batch (db, 0)) = length before + length rest
          \<and> (\<not> commit_raises st \<longrightarrow>
                snd (save_enunciados st db ?batch) = length before + length rest)"
    if "distinct (map enunciado_key ?batch)"
      "\<forall>d \<in> set ?batch. \<forall>r \<in> set (enunciados_table db @ new_enunciados db).
         \<not> same_enunciado d r"
      "\<forall>j. stage_raises st j \<longleftrightarrow> j = length before"
    using fresh_e [OF that(1,2)] staged_enunciados_one_bad [OF that(3), of bad rest]
    by (simp add: save_enunciados_def)
  note saved_j = save_jurisprudencia_settles [of st ?batch db]
  note saved_e = save_enunciados_settles [of st ?batch db]
  note total_j = save_jurisprudencia_count [of st db ?batch]
  note total_e = save_enunciados_count [of st db ?batch]
  show ?thesis
    apply (intro conjI)
                 apply (rule skip_j)
                apply (rule skip_e)
               apply (rule row_j)
              apply (rule row_e)
             apply (rule count_j)
            apply (rule count_e)
    using fresh_j apply blast
    using fresh_e apply blast
    using one_j apply blast
    using one_e apply blast
    using saved_j apply blast
    using saved_e apply blast
    using total_j apply blast
    using total_e apply blast
    done
qed

theorem bad_record_is_skipped_witness:
  "stage_raises (broken_storage ''TST'' 1 ''STJ'')
     (length [example_decision ''STJ'' ''0000001-11.2024.3.00.0000'' ''Agravo interno''])
   \<and> save_jurisprudencia (broken_storage ''TST'' 1 ''STJ'') (example_database [])
        ([example_decision ''STJ'' ''0000001-11.2024.3.00.0000'' ''Agravo interno'']
         @ example_decision ''STJ'' ''0000002-22.2024.3.00.0000'' ''Recurso especial''
         # [example_decision ''STJ'' ''0000003-33.2024.3.00.0000'' ''Habeas corpus''])
     = save_jurisprudencia (without_position 1 (broken_storage ''TST'' 1 ''STJ''))
        (example_database [])
        ([example_decision ''STJ'' ''0000001-11.2024.3.00.0000'' ''Agravo interno'']
         @ [example_decision ''STJ'' ''0000003-33.2024.3.00.0000'' ''Habeas corpus''])
   \<and> save_jurisprudencia (broken_storage ''TST'' 1 ''STJ'') (example_database [])
        ([example_decision ''STJ'' ''0000001-11.2024.3.00.0000'' ''Agravo interno'']
         @ example_decision ''STJ'' ''0000002-22.2024.3.00.0000'' ''Recurso especial''
         # [example_decision ''STJ'' ''0000003-33.2024.3.00.0000'' ''Habeas corpus''])
     = (\<lparr>jurisprudencia_table =
           [new_Jurisprudencia
              (example_decision ''STJ'' ''0000001-11.2024.3.00.0000'' ''Agravo interno'') 100,
            new_Jurisprudencia
              (example_decision ''STJ'' ''0000003-33.2024.3.00.0000'' ''Habeas corpus'') 102],
         enunciados_table = [], new_jurisprudencia = [], new_enunciados = [],
         autoflush = True\<rparr>, 2)
   \<and> snd (stage_decisions (broken_storage ''TST'' 1 ''STJ'') 0
        ([example_decision ''STJ'' ''0000001-11.2024.3.00.0000'' ''Agravo interno'']
         @ example_decision ''STJ'' ''0000002-22.2024.3.00.0000'' ''Recurso especial''
         # [example_decision ''STJ'' ''0000003-33.2024.3.00.0000'' ''Habeas corpus''])
        (example_database [], 0)) = 2
   \<and> save_enunciados (broken_storage ''TST'' 1 ''ENUNCIADOS'') (example_database [])
        ([example_enunciado 1] @ example_enunciado 2 # [example_enunciado 3])
     = (\<lparr>jurisprudencia_table = [],
         enunciados_table =
           [new_Enunciado (example_enunciado 1) 100, new_Enunciado (example_enunciado 3) 102],
         new_jurisprudencia = [], new_enunciados = [], autoflush = True\<rparr>, 2)
   \<and> snd (stage_enunciados (broken_storage ''TST'' 1 ''ENUNCIADOS'') 0
        ([example_enunciado 1] @ example_enunciado 2 # [example_enunciado 3])
        (example_database [], 0)) = 2"
proof -
  let ?st = "broken_storage ''TST'' 1 ''STJ''"
  let ?before = "[example_decision ''STJ'' ''0000001-11.2024.3.00.0000'' ''Agravo interno'']"
  let ?bad = "example_decision ''STJ'' ''0000002-22.2024.3.00.0000'' ''Recurso especial''"
  let ?rest = "[example_decision ''STJ'' ''0000003-33.2024.3.00.0000'' ''Habeas corpus'']"
  let ?ste = "broken_storage ''TST'' 1 ''ENUNCIADOS''"
  let ?db = "example_database []"
  have h: "stage_raises ?st (length ?before)"
    by (simp add: broken_storage_def)
  have he: "stage_raises ?ste (length [example_enunciado 1])"
    by (simp add: broken_storage_def)
  have only: "\<forall>j. stage_raises ?st j \<longleftrightarrow> j = length ?before"
    by (simp add: broken_storage_def)
  have only_e: "\<forall>j. stage_raises ?ste j \<longleftrightarrow> j = length [example_enunciado 1]"
    by (simp add: broken_storage_def)
  have dist: "distinct (map decision_key (?before @ ?bad # ?rest))"
    by code_simp
  have dist_e: "distinct (map enunciado_key
                  ([example_enunciado 1] @ example_enunciado 2 # [example_enunciado 3]))"
    by code_simp
  have fresh: "\<forall>d \<in> set (?before @ ?bad # ?rest).
        \<forall>r \<in> set (jurisprudencia_table ?db @ new_jurisprudencia ?db). \<not> same_decision d r"
    by (simp add: example_database_def)
  have fresh_e: "\<forall>d \<in> set ([example_enunciado 1] @ example_enunciado 2 # [example_enunciado 3]).
        \<forall>r \<in> set (enunciados_table ?db @ new_enunciados ?db). \<not> same_enunciado d r"
    by (simp add: example_database_def)
  note t = bad_record_is_skipped [of ?st ?before ?db ?bad ?rest, OF h]
  note te = bad_record_is_skipped
    [of ?ste "[example_enunciado 1]" ?db "example_enunciado 2" "[example_enunciado 3]", OF he]
  from t have skip: "save_jurisprudencia ?st ?db (?before @ ?bad # ?rest)
     = save_jurisprudencia (without_position (length ?before) ?st) ?db (?before @ ?rest)"
    by (elim conjE)
  from t dist fresh only
  have n: "snd (stage_decisions ?st 0 (?before @ ?bad # ?rest) (?db, 0))
           = length ?before + length ?rest"
    by blast
  from te dist_e fresh_e only_e
  have ne: "snd (stage_enunciados ?ste 0
                   ([example_enunciado 1] @ example_enunciado 2 # [example_enunciado 3]) (?db, 0))
           = length [example_enunciado 1] + length [example_enunciado 3]"
    by blast
  have v: "save_jurisprudencia ?st ?db (?before @ ?bad # ?rest)
     = (\<lparr>jurisprudencia_table =
           [new_Jurisprudencia
              (example_decision ''STJ'' ''0000001-11.2024.3.00.0000'' ''Agravo interno'') 100,
            new_Jurisprudencia
              (example_decision ''STJ'' ''0000003-33.2024.3.00.0000'' ''Habeas corpus'') 102],
         enunciados_table = [], new_jurisprudencia = [], new_enunciados = [],
         autoflush = True\<rparr>, 2)"
    by code_simp
  have ve: "save_enunciados ?ste ?db
        ([example_enunciado 1] @ example_enunciado 2 # [example_enunciado 3])
     = (\<lparr>jurisprudencia_table = [],
         enunciados_table =
           [new_Enunciado (example_enunciado 1) 100, new_Enunciado (example_enunciado 3) 102],
         new_jurisprudencia = [], new_enunciados = [], autoflush = True\<rparr>, 2)"
    by code_simp
  from n have n2: "snd (stage_decisions ?st 0 (?before @ ?bad # ?rest) (?db, 0)) = 2"
    by simp
  from ne have ne2: "snd (stage_enunciados ?ste 0
        ([example_enunciado 1] @ example_enunciado 2 # [example_enunciado 3]) (?db, 0)) = 2"
    by simp
  from skip have skip1: "save_jurisprudencia ?st ?db (?before @ ?bad # ?rest)
     = save_jurisprudencia (without_position 1 ?st) ?db (?before @ ?rest)"
    by simp
  show ?thesis
    by (intro conjI) (rule h, rule skip1, rule v, rule n2, rule ve, rule ne2)
qed

section \<open>Deduplication and idempotence\<close>

text \<open>
  C1. A record whose uniqueness key the lookup finds is skipped: the database, its existing
  rows included, and the count stay as they are (for decisions and for enunciados, whatever
  the storage does). After a run of \<^verbatim>\<open>collect_all_recent_jurisprudence\<close> in which the storage
  worked, a second run over the same scrapers, returning the same records, reports
  \<^verbatim>\<open>total_collected = 0\<close> and leaves the database exactly as the first run left it, whatever
  the storage does during the second run. The same holds after a first run in which the
  storage failed in any way, when it fails in the same way during the second run.
\<close>

theorem deduplication_first_write_wins:
  "(query_jurisprudencia db (py_get decision ''tribunal'') (py_get decision ''numero_processo'')
      \<noteq> None \<longrightarrow> stage_decision st i decision (db, n) = (db, n))
   \<and> (query_enunciado db (py_get decision ''orgao'') (py_get decision ''tipo'')
        (py_get decision ''numero'') \<noteq> None
      \<longrightarrow> stage_enunciado st i decision (db, n) = (db, n))
   \<and> total_collected (snd (collect_all_recent_jurisprudence env scrapers days_back
        (fst (collect_all_recent_jurisprudence (working_storage clock) scrapers days_back db0))))
       = 0
   \<and> fst (collect_all_recent_jurisprudence env scrapers days_back
        (fst (collect_all_recent_jurisprudence (working_storage clock) scrapers days_back db0)))
       = fst (collect_all_recent_jurisprudence (working_storage clock) scrapers days_back db0)
   \<and> total_collected (snd (collect_all_recent_jurisprudence env scrapers days_back
        (fst (collect_all_recent_jurisprudence env scrapers days_back db0)))) = 0
   \<and> fst (collect_all_recent_jurisprudence env scrapers days_back
        (fst (collect_all_recent_jurisprudence env scrapers days_back db0)))
       = fst (collect_all_recent_jurisprudence env scrapers days_back db0)"
proof -
  have "\<forall>e \<in> set scrapers. no_recovery (working_storage clock (fst e)) (env (fst e))"
    by (simp add: no_recovery_def working_storage_def)
  note after_working = second_run_collects_nothing [OF this, of days_back db0]
  have "\<forall>e \<in> set scrapers. no_recovery (env (fst e)) (env (fst e))"
    by (auto simp: no_recovery_def)
  note after_same = second_run_collects_nothing [OF this, of days_back db0]
  from after_working after_same show ?thesis
    by (simp add: stage_decision_existing stage_enunciado_existing
        del: stage_decision.simps stage_enunciado.simps)
qed

theorem deduplication_first_write_wins_witness:
  "query_jurisprudencia
     (example_database [new_Jurisprudencia
        (example_decision ''STJ'' ''0001234-56.2024.8.26.0000'' ''Texto original'') 50])
     (py_get (example_decision ''STJ'' ''0001234-56.2024.8.26.0000'' ''Texto novo'') ''tribunal'')
     (py_get (example_decision ''STJ'' ''0001234-56.2024.8.26.0000'' ''Texto novo'')
        ''numero_processo'') \<noteq> None
   \<and> stage_decision (working_storage (\<lambda>name i. 100) ''STJ'') 0
       (example_decision ''STJ'' ''0001234-56.2024.8.26.0000'' ''Texto novo'')
       (example_database [new_Jurisprudencia
          (example_decision ''STJ'' ''0001234-56.2024.8.26.0000'' ''Texto original'') 50], 0)
     = (example_database [new_Jurisprudencia
          (example_decision ''STJ'' ''0001234-56.2024.8.26.0000'' ''Texto original'') 50], 0)
   \<and> total_collected (snd (collect_all_recent_jurisprudence (working_storage (\<lambda>name i. 100))
        [(''STJ'', returning
           [example_decision ''STJ'' ''0001234-56.2024.8.26.0000'' ''Texto novo'',
            example_decision ''STJ'' ''0000002-22.2024.3.00.0000'' ''Recurso especial'',
            example_decision ''STJ'' ''0000003-33.2024.3.00.0000'' ''Habeas corpus''])] 7
        (example_database [new_Jurisprudencia
          (example_decision ''STJ'' ''0001234-56.2024.8.26.0000'' ''Texto original'') 50]))) = 2
   \<and> map ementa (jurisprudencia_table (fst (collect_all_recent_jurisprudence
        (working_storage (\<lambda>name i. 100))
        [(''STJ'', returning
           [example_decision ''STJ'' ''0001234-56.2024.8.26.0000'' ''Texto novo'',
            example_decision ''STJ'' ''0000002-22.2024.3.00.0000'' ''Recurso especial'',
            example_decision ''STJ'' ''0000003-33.2024.3.00.0000'' ''Habeas corpus''])] 7
        (example_database [new_Jurisprudencia
          (example_decision ''STJ'' ''0001234-56.2024.8.26.0000'' ''Texto original'') 50]))))
     = [PyStr ''Texto original'', PyStr ''Recurso especial'', PyStr ''Habeas corpus'']
   \<and> total_collected (snd (collect_all_recent_jurisprudence (broken_storage ''TST'' 1)
        [(''STJ'', returning
           [example_decision ''STJ'' ''0001234-56.2024.8.26.0000'' ''Texto novo'',
            example_decision ''STJ'' ''0000002-22.2024.3.00.0000'' ''Recurso especial'',
            example_decision ''STJ'' ''0000003-33.2024.3.00.0000'' ''Habeas corpus''])] 7
        (fst (collect_all_recent_jurisprudence (working_storage (\<lambda>name i. 100))
          [(''STJ'', returning
             [example_decision ''STJ'' ''0001234-56.2024.8.26.0000'' ''Texto novo'',
              example_decision ''STJ'' ''0000002-22.2024.3.00.0000'' ''Recurso especial'',
              example_decision ''STJ'' ''0000003-33.2024.3.00.0000'' ''Habeas corpus''])] 7
          (example_database [new_Jurisprudencia
            (example_decision ''STJ'' ''0001234-56.2024.8.26.0000'' ''Texto original'') 50]))))) = 0
   \<and> total_collected (snd (collect_all_recent_jurisprudence (broken_storage ''TST'' 1)
        [(''STJ'', returning
           [example_decision ''STJ'' ''0001234-56.2024.8.26.0000'' ''Texto novo'',
            example_decision ''STJ'' ''0000002-22.2024.3.00.0000'' ''Recurso especial'',
            example_decision ''STJ'' ''0000003-33.2024.3.00.0000'' ''Habeas corpus''])] 7
        (example_database [new_Jurisprudencia
          (example_decision ''STJ'' ''0001234-56.2024.8.26.0000'' ''Texto original'') 50]))) = 1
   \<and> total_collected (snd (collect_all_recent_jurisprudence (broken_storage ''TST'' 1)
        [(''STJ'', returning
           [example_decision ''STJ'' ''0001234-56.2024.8.26.0000'' ''Texto novo'',
            example_decision ''STJ'' ''0000002-22.2024.3.00.0000'' ''Recurso especial'',
            example_decision ''STJ'' ''0000003-33.2024.3.00.0000'' ''Habeas corpus''])] 7
        (fst (collect_all_recent_jurisprudence (broken_storage ''TST'' 1)
          [(''STJ'', returning
             [example_decision ''STJ'' ''0001234-56.2024.8.26.0000'' ''Texto novo'',
              example_decision ''STJ'' ''0000002-22.2024.3.00.0000'' ''Recurso especial'',
              example_decision ''STJ'' ''0000003-33.2024.3.00.0000'' ''Habeas corpus''])] 7
          (example_database [new_Jurisprudencia
            (example_decision ''STJ'' ''0001234-56.2024.8.26.0000'' ''Texto original'') 50]))))) = 0"
proof -
  let ?old = "example_database [new_Jurisprudencia
        (example_decision ''STJ'' ''0001234-56.2024.8.26.0000'' ''Texto original'') 50]"
  let ?dup = "example_decision ''STJ'' ''0001234-56.2024.8.26.0000'' ''Texto novo''"
  let ?reg = "[(''STJ'', returning
           [?dup,
            example_decision ''STJ'' ''0000002-22.2024.3.00.0000'' ''Recurso especial'',
            example_decision ''STJ'' ''0000003-33.2024.3.00.0000'' ''Habeas corpus''])]"
  let ?ok = "working_storage (\<lambda>name i. 100)"
  have q: "query_jurisprudencia ?old (py_get ?dup ''tribunal'') (py_get ?dup ''numero_processo'')
           \<noteq> None"
    by code_simp
  have first: "total_collected (snd (collect_all_recent_jurisprudence ?ok ?reg 7 ?old)) = 2"
    "map ementa (jurisprudencia_table (fst (collect_all_recent_jurisprudence ?ok ?reg 7 ?old)))
     = [PyStr ''Texto original'', PyStr ''Recurso especial'', PyStr ''Habeas corpus'']"
    by code_simp+
  have faulty: "total_collected (snd (collect_all_recent_jurisprudence (broken_storage ''TST'' 1)
        ?reg 7 ?old)) = 1"
    by code_simp
  from deduplication_first_write_wins
    [of ?old ?dup "?ok ''STJ''" 0 0 "broken_storage ''TST'' 1" ?reg 7 "\<lambda>name i. 100" ?old] q
  have "stage_decision (?ok ''STJ'') 0 ?dup (?old, 0) = (?old, 0)
    \<and> total_collected (snd (collect_all_recent_jurisprudence (broken_storage ''TST'' 1) ?reg 7
        (fst (collect_all_recent_jurisprudence ?ok ?reg 7 ?old)))) = 0
    \<and> total_collected (snd (collect_all_recent_jurisprudence (broken_storage ''TST'' 1) ?reg 7
        (fst (collect_all_recent_jurisprudence (broken_storage ''TST'' 1) ?reg 7 ?old)))) = 0"
    by (elim conjE) (intro conjI, blast, assumption, assumption)
  then show ?thesis
    using q first faulty by (simp del: stage_decision.simps)
qed

section \<open>Isolation of one failing source\<close>






section \<open>Scrapers\<close>

text \<open>
  C6. When the fetch gives the failure value \<^verbatim>\<open>None\<close> (which is what \<^verbatim>\<open>get_page\<close> makes of
  a \<^verbatim>\<open>RequestException\<close>), \<^verbatim>\<open>search_recent_decisions\<close> of the STJ scraper returns the empty
  list, and so does that of the enunciados scraper when each of its four pages fails; an
  exception that escapes \<^verbatim>\<open>get_page\<close> ends in the empty list as well. Both functions return
  a list in every case.
\<close>

theorem unreachable_source_gives_no_candidates:
  "(http_get w url = RequestException e \<longrightarrow> get_page w url = Inr None)
   \<and> (get_page w stj_search_url = Inr None \<longrightarrow> stj_search_recent_decisions w days_back = [])
   \<and> (get_page w stj_search_url = Inl e' \<longrightarrow> stj_search_recent_decisions w days_back = [])
   \<and> ((\<forall>u \<in> set (map snd fonaje_urls @ [cnj_url]). get_page w u = Inr None) \<longrightarrow>
        enunciados_search_recent_decisions w days_back = [])"
proof -
  have "get_page w url = Inr None" if "http_get w url = RequestException e"
    using that by (simp add: get_page_def)
  moreover have "stj_search_recent_decisions w days_back = []"
    if "get_page w stj_search_url = Inr None"
    using that by (simp add: stj_search_recent_decisions_def)
  moreover have "stj_search_recent_decisions w days_back = []"
    if "get_page w stj_search_url = Inl e'"
    using that by (simp add: stj_search_recent_decisions_def)
  moreover have "enunciados_search_recent_decisions w days_back = []"
    if "\<forall>u \<in> set (map snd fonaje_urls @ [cnj_url]). get_page w u = Inr None"
    using that
    by (simp add: enunciados_search_recent_decisions_def get_all_enunciados_def fonaje_urls_def
        scrape_fonaje_enunciados_def scrape_cnj_enunciados_def)
  ultimately show ?thesis by blast
qed

theorem unreachable_source_gives_no_candidates_witness:
  "http_get unreachable_web stj_search_url = RequestException ''Connection timed out''
   \<and> get_page unreachable_web stj_search_url = Inr None
   \<and> list_all (\<lambda>u. get_page unreachable_web u = Inr None) (map snd fonaje_urls @ [cnj_url])
   \<and> stj_search_recent_decisions unreachable_web 7 = []
   \<and> enunciados_search_recent_decisions unreachable_web 7 = []"
proof -
  have h: "http_get unreachable_web stj_search_url = RequestException ''Connection timed out''"
    by (simp add: unreachable_web_def)
  have a: "\<forall>u \<in> set (map snd fonaje_urls @ [cnj_url]). get_page unreachable_web u = Inr None"
    by (simp add: unreachable_web_def get_page_def)
  from unreachable_source_gives_no_candidates
    [of unreachable_web stj_search_url "''Connection timed out''" 7 "''not reached''"] h a
  have "get_page unreachable_web stj_search_url = Inr None
        \<and> stj_search_recent_decisions unreachable_web 7 = []
        \<and> enunciados_search_recent_decisions unreachable_web 7 = []"
    by blast
  with h a show ?thesis
    by (simp add: list_all_iff)
qed

lemma details_loop_returns:
  assumes "\<forall>c \<in> set candidates. extract_decision_details s (py_get c ''url'') = Inr (details c)"
  shows "details_loop s candidates acc
         = Inr (acc @ List.map_filter (\<lambda>c. present (details c)) candidates)"
  using assms
proof (induction candidates arbitrary: acc)
  case Nil
  then show ?case by (simp add: List.map_filter_simps)
next
  case (Cons c candidates)
  then show ?case
    by (cases "present (details c)") (simp_all add: List.map_filter_simps)
qed

text \<open>
  C7. When \<^verbatim>\<open>search_recent_decisions\<close> returns candidates and \<^verbatim>\<open>extract_decision_details\<close>
  returns for the \<^verbatim>\<open>url\<close> of each of them, \<^verbatim>\<open>get_recent_jurisprudence\<close> returns, in candidate
  order, the results that are present: those that are not \<^verbatim>\<open>None\<close> (an empty dictionary is
  dropped like \<^verbatim>\<open>None\<close>; where no result is one, exactly the results other than \<^verbatim>\<open>None\<close>).
\<close>

theorem composite_collect_filters_absent:
  assumes "search_recent_decisions s days_back = Inr candidates"
    and "\<forall>c \<in> set candidates. extract_decision_details s (py_get c ''url'') = Inr (details c)"
  shows "get_recent_jurisprudence s days_back
           = List.map_filter (\<lambda>c. present (details c)) candidates
     \<and> ((\<forall>c \<in> set candidates. details c \<noteq> Some []) \<longrightarrow>
          get_recent_jurisprudence s days_back = List.map_filter details candidates)"
proof -
  have run: "get_recent_jurisprudence s days_back
             = List.map_filter (\<lambda>c. present (details c)) candidates"
    using assms(1) details_loop_returns [OF assms(2), of "[]"]
    by (simp add: get_recent_jurisprudence_def)
  have "List.map_filter (\<lambda>c. present (details c)) candidates = List.map_filter details candidates"
    if "\<forall>c \<in> set candidates. details c \<noteq> Some []"
    using that
  proof (induction candidates)
    case Nil
    then show ?case by simp
  next
    case (Cons c candidates)
    then have "present (details c) = details c"
      by (cases "details c") auto
    with Cons show ?case
      by (simp add: List.map_filter_simps split: option.split)
  qed
  with run show ?thesis by simp
qed

theorem composite_collect_filters_absent_witness:
  "search_recent_decisions example_base_scraper 7
     = Inr [[(''url'', PyStr ''/decisao/1'')], [(''url'', PyStr ''/decisao/2'')],
            [(''url'', PyStr ''/decisao/3'')]]
   \<and> list_all (\<lambda>c. extract_decision_details example_base_scraper (py_get c ''url'')
                      = Inr (example_details (py_get c ''url'')))
        [[(''url'', PyStr ''/decisao/1'')], [(''url'', PyStr ''/decisao/2'')],
         [(''url'', PyStr ''/decisao/3'')]]
   \<and> get_recent_jurisprudence example_base_scraper 7
       = [[(''tribunal'', PyStr ''STJ''), (''url_origem'', PyStr ''/decisao/1'')],
          [(''tribunal'', PyStr ''STJ''), (''url_origem'', PyStr ''/decisao/3'')]]"
proof -
  let ?candidates = "[[(''url'', PyStr ''/decisao/1'')], [(''url'', PyStr ''/decisao/2'')],
            [(''url'', PyStr ''/decisao/3'')]]"
  have s: "search_recent_decisions example_base_scraper 7 = Inr ?candidates"
    by (simp add: example_base_scraper_def)
  have x: "\<forall>c \<in> set ?candidates.
         extract_decision_details example_base_scraper (py_get c ''url'')
           = Inr (example_details (py_get c ''url''))"
    by (simp add: example_base_scraper_def)
  have v: "List.map_filter (\<lambda>c. present (example_details (py_get c ''url''))) ?candidates
       = [[(''tribunal'', PyStr ''STJ''), (''url_origem'', PyStr ''/decisao/1'')],
          [(''tribunal'', PyStr ''STJ''), (''url_origem'', PyStr ''/decisao/3'')]]"
    by code_simp
  from composite_collect_filters_absent
    [of example_base_scraper 7 ?candidates "\<lambda>c. example_details (py_get c ''url'')", OF s x]
  have "get_recent_jurisprudence example_base_scraper 7
        = List.map_filter (\<lambda>c. present (example_details (py_get c ''url''))) ?candidates"
    by (elim conjE)
  with s x v show ?thesis
    by (simp add: list_all_iff)
qed

text \<open>
  C8. \<^verbatim>\<open>search_recent_decisions\<close> of the enunciados scraper gives the same list for any two
  values of \<^verbatim>\<open>days_back\<close>, namely all the enunciados of \<^verbatim>\<open>get_all_enunciados\<close>, and its
  \<^verbatim>\<open>extract_decision_details\<close> gives \<^verbatim>\<open>None\<close> for every argument.
\<close>

theorem rules_scraper_ignores_days_back:
  "enunciados_search_recent_decisions w days_back
     = enunciados_search_recent_decisions w days_back'
   \<and> enunciados_search_recent_decisions w days_back = get_all_enunciados w
   \<and> enunciados_extract_decision_details w decision_url = None"
  by (simp add: enunciados_search_recent_decisions_def enunciados_extract_decision_details_def)

theorem rules_scraper_ignores_days_back_witness:
  "enunciados_search_recent_decisions online_web 0
     = enunciados_search_recent_decisions online_web 365
   \<and> enunciados_search_recent_decisions online_web 0
     = [[(''orgao'', PyStr ''FONAJE''), (''tipo'', PyStr ''civeis''), (''numero'', PyInt 1),
         (''texto'', PyStr ''Texto'')],
        [(''orgao'', PyStr ''FONAJE''), (''tipo'', PyStr ''criminais''), (''numero'', PyInt 1),
         (''texto'', PyStr ''Texto'')],
        [(''orgao'', PyStr ''FONAJE''), (''tipo'', PyStr ''fazenda_publica''),
         (''numero'', PyInt 1), (''texto'', PyStr ''Texto'')]]
   \<and> enunciados_extract_decision_details online_web (PyStr ''https://www.cnj.jus.br/enunciados/'')
     = None
   \<and> get_recent_jurisprudence (enunciados_scraper online_web) 0 = []"
proof -
  have v: "get_all_enunciados online_web
     = [[(''orgao'', PyStr ''FONAJE''), (''tipo'', PyStr ''civeis''), (''numero'', PyInt 1),
         (''texto'', PyStr ''Texto'')],
        [(''orgao'', PyStr ''FONAJE''), (''tipo'', PyStr ''criminais''), (''numero'', PyInt 1),
         (''texto'', PyStr ''Texto'')],
        [(''orgao'', PyStr ''FONAJE''), (''tipo'', PyStr ''fazenda_publica''),
         (''numero'', PyInt 1), (''texto'', PyStr ''Texto'')]]"
    by code_simp
  have c: "get_recent_jurisprudence (enunciados_scraper online_web) 0 = []"
    by code_simp
  note t = rules_scraper_ignores_days_back
    [of online_web 0 365 "PyStr ''https://www.cnj.jus.br/enunciados/''"]
  from t have a: "enunciados_search_recent_decisions online_web 0
                  = enunciados_search_recent_decisions online_web 365"
    by (elim conjE)
  from t have "enunciados_search_recent_decisions online_web 0 = get_all_enunciados online_web"
    by (elim conjE)
  then have b: "enunciados_search_recent_decisions online_web 0
     = [[(''orgao'', PyStr ''FONAJE''), (''tipo'', PyStr ''civeis''), (''numero'', PyInt 1),
         (''texto'', PyStr ''Texto'')],
        [(''orgao'', PyStr ''FONAJE''), (''tipo'', PyStr ''criminais''), (''numero'', PyInt 1),
         (''texto'', PyStr ''Texto'')],
        [(''orgao'', PyStr ''FONAJE''), (''tipo'', PyStr ''fazenda_publica''),
         (''numero'', PyInt 1), (''texto'', PyStr ''Texto'')]]"
    by (simp only: v)
  from t have d: "enunciados_extract_decision_details online_web
                    (PyStr ''https://www.cnj.jus.br/enunciados/'') = None"
    by (elim conjE)
  show ?thesis
    by (intro conjI) (rule a, rule b, rule d, rule c)
qed

section \<open>The scheduler routes\<close>

lemma find_append_new:
  "find P xs = None \<Longrightarrow> P y \<Longrightarrow> find P (xs @ [y]) = Some y"
  by (induction xs) (auto split: if_splits)

lemma find_replaced:
  "find (\<lambda>j. f j = f y) xs \<noteq> None \<Longrightarrow>
   find (\<lambda>j. f j = f y) (map (\<lambda>j. if f j = f y then y else j) xs) = Some y"
  by (induction xs) (auto split: if_splits)

lemma get_job_added:
  "get_job (scheduler_add_job sch new_job) (job_id new_job) = Some new_job"
proof (cases "get_job sch (job_id new_job) = None")
  case True
  then show ?thesis
    by (simp add: scheduler_add_job_def get_job_def find_append_new)
next
  case False
  then have "find (\<lambda>j. job_id j = job_id new_job)
               (map (\<lambda>j. if job_id j = job_id new_job then new_job else j) (jobs sch))
             = Some new_job"
    unfolding get_job_def by (rule find_replaced)
  with False show ?thesis
    by (auto simp: scheduler_add_job_def get_job_def)
qed

lemma str_nat_digit: "n < 10 \<Longrightarrow> str_nat n = [digit_char n]"
  by (simp add: str_nat.simps)

lemma str_nat_two_digits:
  assumes "10 \<le> n" and "n < 100"
  shows "str_nat n = [digit_char (n div 10), digit_char (n mod 10)]"
proof -
  from assms have "n div 10 < 10" by simp
  then have "str_nat (n div 10) = [digit_char (n div 10)]"
    by (rule str_nat_digit)
  with assms show ?thesis
    by (subst str_nat.simps) simp
qed

lemma format_02d_two_digits:
  assumes "0 \<le> n" and "n < 100"
  shows "format_02d n = [digit_char (nat (n div 10)), digit_char (nat (n mod 10))]"
proof (cases "n < 10")
  case True
  with assms have "n div 10 = 0" "n mod 10 = n" "nat n < 10"
    by simp_all
  moreover have "digit_char 0 = CHR ''0''"
    by code_simp
  ultimately show ?thesis
    using assms True by (simp add: format_02d_def str_nat_digit)
next
  case False
  with assms have "10 \<le> nat n" "nat n < 100"
    by simp_all
  then have "str_nat (nat n) = [digit_char (nat n div 10), digit_char (nat n mod 10)]"
    by (rule str_nat_two_digits)
  moreover from assms have "nat n div 10 = nat (n div 10)" "nat n mod 10 = nat (n mod 10)"
    by (simp_all add: nat_div_distrib nat_mod_distrib)
  ultimately show ?thesis
    using assms False by (simp add: format_02d_def)
qed

lemma remove_job_unchanged_or_gone:
  "scheduler sv = Some sch \<Longrightarrow>
   \<exists>sch'. scheduler (fst (remove_job sv ident)) = Some sch'"
  by (simp add: remove_job_def scheduler_remove_job_def)

lemma find_filter_none: "find P (filter (\<lambda>x. \<not> P x) xs) = None"
  by (induction xs) simp_all

lemma remove_job_present:
  assumes "scheduler sv = Some sch" and "get_job sch ident = Some j"
  shows "fst (remove_job sv ident)
         = sv\<lparr>scheduler := Some (sch\<lparr>jobs := filter (\<lambda>j. job_id j \<noteq> ident) (jobs sch)\<rparr>)\<rparr>"
  using assms by (simp add: remove_job_def scheduler_remove_job_def)

lemma removed_job_is_gone:
  "get_job (sch\<lparr>jobs := filter (\<lambda>j. job_id j \<noteq> ident) (jobs sch)\<rparr>) ident = None"
  using find_filter_none [of "\<lambda>j. job_id j = ident" "jobs sch"]
  by (simp add: get_job_def)

lemma members_nonempty: "map_of members key = Some v \<Longrightarrow> json_truthy (JObj members)"
  by auto

text \<open>
  With integers, \<^verbatim>\<open>update_schedule_config\<close> does what its messages say. It rejects with
  status 400, leaving the scheduler service as it is: a request without data, a request
  without an hour, an hour outside 0..23, and (with the hour in range) a minute outside
  0..59. With an hour in 0..23, a minute in 0..59 (0 when the request gives none) and a
  scheduler that has been initialised, it answers with status 200, success and the new
  schedule as two digits, a colon and two digits, and the daily job then has the new hour
  and minute.
\<close>

lemma schedule_config_integers:
  "update_schedule_config sv (Inr JNull) = (sv, bad_request no_data_message)
   \<and> update_schedule_config sv (Inr (JObj [])) = (sv, bad_request no_data_message)
   \<and> (members \<noteq> [] \<and> dict_get members ''hour'' JNull = JNull \<longrightarrow>
        update_schedule_config sv (Inr (JObj members)) = (sv, bad_request hour_message))
   \<and> (map_of members ''hour'' = Some (JInt h) \<and> (h < 0 \<or> 23 < h) \<longrightarrow>
        update_schedule_config sv (Inr (JObj members)) = (sv, bad_request hour_message))
   \<and> (map_of members ''hour'' = Some (JInt h) \<and> 0 \<le> h \<and> h \<le> 23
        \<and> dict_get members ''minute'' (JInt 0) = JInt m \<and> (m < 0 \<or> 59 < m) \<longrightarrow>
        update_schedule_config sv (Inr (JObj members)) = (sv, bad_request minute_message))
   \<and> (map_of members ''hour'' = Some (JInt h) \<and> 0 \<le> h \<and> h \<le> 23
        \<and> dict_get members ''minute'' (JInt 0) = JInt m \<and> 0 \<le> m \<and> m \<le> 59
        \<and> scheduler sv = Some sch \<longrightarrow>
        snd (update_schedule_config sv (Inr (JObj members)))
        = ([(''success'', JBool True),
            (''message'', JStr (''Agendamento atualizado para ''
               @ [digit_char (nat (h div 10)), digit_char (nat (h mod 10)), CHR '':'',
                  digit_char (nat (m div 10)), digit_char (nat (m mod 10))])),
            (''new_schedule'',
             JStr [digit_char (nat (h div 10)), digit_char (nat (h mod 10)), CHR '':'',
                   digit_char (nat (m div 10)), digit_char (nat (m mod 10))])], 200)
        \<and> (\<exists>sch'. scheduler (fst (update_schedule_config sv (Inr (JObj members)))) = Some sch'
              \<and> get_job sch' ''daily_jurisprudence'' = Some (daily_job h m)))"
proof -
  have none: "update_schedule_config sv (Inr JNull) = (sv, bad_request no_data_message)"
    "update_schedule_config sv (Inr (JObj [])) = (sv, bad_request no_data_message)"
    by (simp_all add: update_schedule_config_def)
  have missing: "update_schedule_config sv (Inr (JObj members)) = (sv, bad_request hour_message)"
    if "members \<noteq> []" "dict_get members ''hour'' JNull = JNull"
    using that by (simp add: update_schedule_config_def)
  have bad_hour: "update_schedule_config sv (Inr (JObj members)) = (sv, bad_request hour_message)"
    if "map_of members ''hour'' = Some (JInt h)" "h < 0 \<or> 23 < h"
    using that members_nonempty [OF that(1)]
    by (auto simp: update_schedule_config_def dict_get_def)
  have bad_minute: "update_schedule_config sv (Inr (JObj members)) = (sv, bad_request minute_message)"
    if "map_of members ''hour'' = Some (JInt h)" "0 \<le> h" "h \<le> 23"
      "dict_get members ''minute'' (JInt 0) = JInt m" "m < 0 \<or> 59 < m"
    using that members_nonempty [OF that(1)]
    by (auto simp: update_schedule_config_def dict_get_def)
  have good: "snd (update_schedule_config sv (Inr (JObj members)))
        = ([(''success'', JBool True),
            (''message'', JStr (''Agendamento atualizado para ''
               @ [digit_char (nat (h div 10)), digit_char (nat (h mod 10)), CHR '':'',
                  digit_char (nat (m div 10)), digit_char (nat (m mod 10))])),
            (''new_schedule'',
             JStr [digit_char (nat (h div 10)), digit_char (nat (h mod 10)), CHR '':'',
                   digit_char (nat (m div 10)), digit_char (nat (m mod 10))])], 200)
        \<and> (\<exists>sch'. scheduler (fst (update_schedule_config sv (Inr (JObj members)))) = Some sch'
              \<and> get_job sch' ''daily_jurisprudence'' = Some (daily_job h m))"
    if h: "map_of members ''hour'' = Some (JInt h)" "0 \<le> h" "h \<le> 23"
      and m: "dict_get members ''minute'' (JInt 0) = JInt m" "0 \<le> m" "m \<le> 59"
      and s: "scheduler sv = Some sch"
  proof -
    obtain sv' result where r: "remove_job sv ''daily_jurisprudence'' = (sv', result)"
      by (cases "remove_job sv ''daily_jurisprudence''")
    from remove_job_unchanged_or_gone [OF s, of "''daily_jurisprudence''"] r
    obtain sch1 where s1: "scheduler sv' = Some sch1"
      by auto
    have fh: "format_02d h = [digit_char (nat (h div 10)), digit_char (nat (h mod 10))]"
      using h by (intro format_02d_two_digits) simp_all
    have fm: "format_02d m = [digit_char (nat (m div 10)), digit_char (nat (m mod 10))]"
      using m by (intro format_02d_two_digits) simp_all
    have id: "job_id (daily_job h m) = ''daily_jurisprudence''"
      by (simp add: daily_job_def)
    have "get_job (scheduler_add_job sch1 (daily_job h m)) ''daily_jurisprudence''
          = Some (daily_job h m)"
      using get_job_added [of sch1 "daily_job h m"] by (simp only: id)
    then show ?thesis
      using h m members_nonempty [OF h(1)] r s1 fh fm
      by (simp add: update_schedule_config_def dict_get_def CronTrigger_def)
  qed
  from none missing bad_hour bad_minute good show ?thesis
    by blast
qed

text \<open>
  C4. \<^verbatim>\<open>update_schedule_config\<close> does not validate all that it then uses. Its range tests
  hold for a JSON boolean and for a number that is not an integer; the route then removes
  the daily job and only afterwards builds the trigger of the new one, and \<^verbatim>\<open>CronTrigger\<close>
  raises on such a value. So, for a scheduler that holds the daily job: with an hour that is
  \<^verbatim>\<open>true\<close>, \<^verbatim>\<open>false\<close> or a float within 0..23 and a minute that passes its test, and likewise
  with an integer hour within 0..23 and a minute that is a boolean or a float within
  0..59, the route answers with status 500, and the scheduler is left without the daily
  job, all its other jobs being kept.
\<close>

theorem schedule_config_loses_daily_job:
  assumes "scheduler sv = Some sch"
    and "get_job sch ''daily_jurisprudence'' = Some j"
  shows "(map_of members ''hour'' = Some (JBool b)
          \<and> range_test (dict_get members ''minute'' (JInt 0)) 59 = Inr (Some minute_value)
          \<longrightarrow> update_schedule_config sv (Inr (JObj members))
              = (fst (remove_job sv ''daily_jurisprudence''),
                 internal_error (unrecognized (if b then ''True'' else ''False'') ''hour'')))
    \<and> (map_of members ''hour'' = Some (JFloat x s) \<and> 0 \<le> x \<and> x \<le> 23
          \<and> range_test (dict_get members ''minute'' (JInt 0)) 59 = Inr (Some minute_value)
          \<longrightarrow> update_schedule_config sv (Inr (JObj members))
              = (fst (remove_job sv ''daily_jurisprudence''),
                 internal_error (unrecognized s ''hour'')))
    \<and> (map_of members ''hour'' = Some (JInt h) \<and> 0 \<le> h \<and> h \<le> 23
          \<and> map_of members ''minute'' = Some (JBool b)
          \<longrightarrow> update_schedule_config sv (Inr (JObj members))
              = (fst (remove_job sv ''daily_jurisprudence''),
                 internal_error (unrecognized (if b then ''True'' else ''False'') ''minute'')))
    \<and> (map_of members ''hour'' = Some (JInt h) \<and> 0 \<le> h \<and> h \<le> 23
          \<and> map_of members ''minute'' = Some (JFloat x s) \<and> 0 \<le> x \<and> x \<le> 59
          \<longrightarrow> update_schedule_config sv (Inr (JObj members))
              = (fst (remove_job sv ''daily_jurisprudence''),
                 internal_error (unrecognized s ''minute'')))
    \<and> snd (internal_error e) = 500
    \<and> (\<exists>sch'. scheduler (fst (remove_job sv ''daily_jurisprudence'')) = Some sch'
          \<and> jobs sch' = filter (\<lambda>j. job_id j \<noteq> ''daily_jurisprudence'') (jobs sch)
          \<and> get_job sch' ''daily_jurisprudence'' = None)"
proof -
  let ?sch = "sch\<lparr>jobs := filter (\<lambda>j. job_id j \<noteq> ''daily_jurisprudence'') (jobs sch)\<rparr>"
  have removed: "fst (remove_job sv ''daily_jurisprudence'') = sv\<lparr>scheduler := Some ?sch\<rparr>"
    using assms by (rule remove_job_present)
  obtain result where r: "remove_job sv ''daily_jurisprudence''
                          = (sv\<lparr>scheduler := Some ?sch\<rparr>, result)"
    using removed by (cases "remove_job sv ''daily_jurisprudence''") simp
  have hour_bool: "update_schedule_config sv (Inr (JObj members))
        = (fst (remove_job sv ''daily_jurisprudence''),
           internal_error (unrecognized (if b then ''True'' else ''False'') ''hour''))"
    if "map_of members ''hour'' = Some (JBool b)"
      "range_test (dict_get members ''minute'' (JInt 0)) 59 = Inr (Some minute_value)"
    using that members_nonempty [OF that(1)] r
    by (simp add: update_schedule_config_def dict_get_def CronTrigger_def)
  have hour_float: "update_schedule_config sv (Inr (JObj members))
        = (fst (remove_job sv ''daily_jurisprudence''), internal_error (unrecognized s ''hour''))"
    if "map_of members ''hour'' = Some (JFloat x s)" "0 \<le> x" "x \<le> 23"
      "range_test (dict_get members ''minute'' (JInt 0)) 59 = Inr (Some minute_value)"
    using that members_nonempty [OF that(1)] r
    by (simp add: update_schedule_config_def dict_get_def CronTrigger_def)
  have minute_bool: "update_schedule_config sv (Inr (JObj members))
        = (fst (remove_job sv ''daily_jurisprudence''),
           internal_error (unrecognized (if b then ''True'' else ''False'') ''minute''))"
    if "map_of members ''hour'' = Some (JInt h)" "0 \<le> h" "h \<le> 23"
      "map_of members ''minute'' = Some (JBool b)"
    using that members_nonempty [OF that(1)] r
    by (simp add: update_schedule_config_def dict_get_def CronTrigger_def)
  have minute_float: "update_schedule_config sv (Inr (JObj members))
        = (fst (remove_job sv ''daily_jurisprudence''),
           internal_error (unrecognized s ''minute''))"
    if "map_of members ''hour'' = Some (JInt h)" "0 \<le> h" "h \<le> 23"
      "map_of members ''minute'' = Some (JFloat x s)" "0 \<le> x" "x \<le> 59"
    using that members_nonempty [OF that(1)] r
    by (simp add: update_schedule_config_def dict_get_def CronTrigger_def)
  have status: "snd (internal_error e) = 500"
    by (simp add: internal_error_def)
  have gone: "\<exists>sch'. scheduler (fst (remove_job sv ''daily_jurisprudence'')) = Some sch'
          \<and> jobs sch' = filter (\<lambda>j. job_id j \<noteq> ''daily_jurisprudence'') (jobs sch)
          \<and> get_job sch' ''daily_jurisprudence'' = None"
    using removed removed_job_is_gone [of "''daily_jurisprudence''" sch] by simp
  from hour_bool hour_float minute_bool minute_float status gone show ?thesis
    by blast
qed

theorem schedule_config_loses_daily_job_witness:
  "scheduler example_service = Some \<lparr>jobs = [daily_job 9 0], running = True\<rparr>
   \<and> get_job \<lparr>jobs = [daily_job 9 0], running = True\<rparr> ''daily_jurisprudence''
     = Some (daily_job 9 0)
   \<and> update_schedule_config example_service (Inr (JObj [(''hour'', JFloat (15 / 2) ''7.5'')]))
     = (\<lparr>scheduler = Some \<lparr>jobs = [], running = True\<rparr>\<rparr>,
        ([(''success'', JBool False),
          (''message'', JStr (''Erro interno: Unrecognized expression '' @ [CHR 0x22] @ ''7.5''
                              @ [CHR 0x22] @ '' for field '' @ [CHR 0x22] @ ''hour''
                              @ [CHR 0x22]))], 500))
   \<and> update_schedule_config example_service (Inr (JObj [(''hour'', JBool True)]))
     = (\<lparr>scheduler = Some \<lparr>jobs = [], running = True\<rparr>\<rparr>,
        ([(''success'', JBool False),
          (''message'', JStr (''Erro interno: Unrecognized expression '' @ [CHR 0x22] @ ''True''
                              @ [CHR 0x22] @ '' for field '' @ [CHR 0x22] @ ''hour''
                              @ [CHR 0x22]))], 500))
   \<and> update_schedule_config example_service
        (Inr (JObj [(''hour'', JInt 7), (''minute'', JFloat (61 / 2) ''30.5'')]))
     = (\<lparr>scheduler = Some \<lparr>jobs = [], running = True\<rparr>\<rparr>,
        ([(''success'', JBool False),
          (''message'', JStr (''Erro interno: Unrecognized expression '' @ [CHR 0x22] @ ''30.5''
                              @ [CHR 0x22] @ '' for field '' @ [CHR 0x22] @ ''minute''
                              @ [CHR 0x22]))], 500))
   \<and> get_scheduled_jobs
        (fst (update_schedule_config example_service (Inr (JObj [(''hour'', JBool True)])))) = []"
proof -
  let ?sch = "\<lparr>jobs = [daily_job 9 0], running = True\<rparr>"
  let ?gone = "\<lparr>scheduler = Some \<lparr>jobs = [], running = True\<rparr>\<rparr>"
  have s: "scheduler example_service = Some ?sch"
    by (simp add: example_service_def)
  have j: "get_job ?sch ''daily_jurisprudence'' = Some (daily_job 9 0)"
    by (simp add: get_job_def daily_job_def)
  have removed: "fst (remove_job example_service ''daily_jurisprudence'') = ?gone"
    by code_simp
  have minute: "range_test (dict_get [(''hour'', JFloat (15 / 2) ''7.5'')] ''minute'' (JInt 0)) 59
                = Inr (Some (Int_value 0))"
    "range_test (dict_get [(''hour'', JBool True)] ''minute'' (JInt 0)) 59
     = Inr (Some (Int_value 0))"
    by (simp_all add: dict_get_def)
  note t1 = schedule_config_loses_daily_job
    [OF s j, of "[(''hour'', JFloat (15 / 2) ''7.5'')]" True "Int_value 0" "15 / 2" "''7.5''" 7]
  note t2 = schedule_config_loses_daily_job
    [OF s j, of "[(''hour'', JBool True)]" True "Int_value 0" 0 "''''" 7]
  note t3 = schedule_config_loses_daily_job
    [OF s j, of "[(''hour'', JInt 7), (''minute'', JFloat (61 / 2) ''30.5'')]" True
       "Int_value 0" "61 / 2" "''30.5''" 7]
  from t1 minute(1) removed
  have a: "update_schedule_config example_service (Inr (JObj [(''hour'', JFloat (15 / 2) ''7.5'')]))
     = (?gone, internal_error (unrecognized ''7.5'' ''hour''))"
    by simp
  from t2 minute(2) removed
  have b: "update_schedule_config example_service (Inr (JObj [(''hour'', JBool True)]))
     = (?gone, internal_error (unrecognized ''True'' ''hour''))"
    by simp
  from t3 removed
  have c: "update_schedule_config example_service
        (Inr (JObj [(''hour'', JInt 7), (''minute'', JFloat (61 / 2) ''30.5'')]))
     = (?gone, internal_error (unrecognized ''30.5'' ''minute''))"
    by simp
  from b have d: "get_scheduled_jobs
        (fst (update_schedule_config example_service (Inr (JObj [(''hour'', JBool True)])))) = []"
    by (simp add: get_scheduled_jobs_def)
  from s j a b c d show ?thesis
    by (simp add: internal_error_def unrecognized_def)
qed

text \<open>
  C5. A request to remove the job \<^verbatim>\<open>daily_jurisprudence\<close> is answered with status 400 and
  a fixed message; the scheduler service is not touched, so the listing of jobs is what it
  was. Removing any other job that the scheduler does not hold gives a failure result with
  status 400 (job not found; scheduler not initialised when there is no scheduler), and
  the service is unchanged.
\<close>

theorem daily_job_is_protected:
  "route_remove_job sv ''daily_jurisprudence''
     = (sv, ([(''success'', JBool False), (''message'', JStr protected_job_message)], 400))
   \<and> get_scheduled_jobs (fst (route_remove_job sv ''daily_jurisprudence''))
     = get_scheduled_jobs sv
   \<and> (ident \<noteq> ''daily_jurisprudence'' \<and> scheduler sv = Some sch \<and> get_job sch ident = None
        \<longrightarrow> route_remove_job sv ident
            = (sv, ([(''success'', JBool False),
                     (''message'', JStr (''Job n'' @ [CHR 0xE3] @ ''o encontrado''))], 400)))
   \<and> (ident \<noteq> ''daily_jurisprudence'' \<and> scheduler sv = None
        \<longrightarrow> route_remove_job sv ident
            = (sv, ([(''success'', JBool False),
                     (''message'', JStr (''Scheduler n'' @ [CHR 0xE3] @ ''o inicializado''))],
                    400)))"
  by (simp add: route_remove_job_def remove_job_def status_of_def)

theorem daily_job_is_protected_witness:
  "route_remove_job example_service ''daily_jurisprudence''
     = (example_service,
        ([(''success'', JBool False), (''message'', JStr protected_job_message)], 400))
   \<and> map (\<lambda>info. py_get info ''id'')
        (get_scheduled_jobs (fst (route_remove_job example_service ''daily_jurisprudence'')))
     = [PyStr ''daily_jurisprudence'']
   \<and> get_scheduled_jobs (fst (remove_job example_service ''daily_jurisprudence'')) = []
   \<and> route_remove_job example_service ''weekly_report''
     = (example_service,
        ([(''success'', JBool False),
          (''message'', JStr (''Job n'' @ [CHR 0xE3] @ ''o encontrado''))], 400))"
proof -
  let ?sch = "\<lparr>jobs = [daily_job 9 0], running = True\<rparr>"
  note t = daily_job_is_protected [of example_service "''weekly_report''" ?sch]
  from t have a: "route_remove_job example_service ''daily_jurisprudence''
     = (example_service,
        ([(''success'', JBool False), (''message'', JStr protected_job_message)], 400))"
    by (elim conjE)
  have listing: "map (\<lambda>info. py_get info ''id'') (get_scheduled_jobs example_service)
                 = [PyStr ''daily_jurisprudence'']"
    by code_simp
  from t have "get_scheduled_jobs (fst (route_remove_job example_service ''daily_jurisprudence''))
               = get_scheduled_jobs example_service"
    by (elim conjE)
  with listing have b: "map (\<lambda>info. py_get info ''id'')
        (get_scheduled_jobs (fst (route_remove_job example_service ''daily_jurisprudence'')))
     = [PyStr ''daily_jurisprudence'']"
    by simp
  have c: "get_scheduled_jobs (fst (remove_job example_service ''daily_jurisprudence'')) = []"
    by code_simp
  have absent: "scheduler example_service = Some ?sch" "get_job ?sch ''weekly_report'' = None"
    by (simp_all add: example_service_def get_job_def daily_job_def)
  with t have d: "route_remove_job example_service ''weekly_report''
     = (example_service,
        ([(''success'', JBool False),
          (''message'', JStr (''Job n'' @ [CHR 0xE3] @ ''o encontrado''))], 400))"
    by simp
  from a b c d show ?thesis
    by (intro conjI)
qed

end
